theory Spec2Isabelle
  imports Main "HOL-Library.Finite_Map" "HOL-Library.Multiset"
begin

section \<open>The ingress router of tsuru, embedded in HOL\<close>

text \<open>
  The source file \<^verbatim>\<open>kubernetes/ingress.go\<close> holds two revisions of package
  \<^verbatim>\<open>kubernetes\<close>. The first one (lines 1-237) has \<^verbatim>\<open>Create\<close>,
  \<^verbatim>\<open>Update\<close>, \<^verbatim>\<open>Swap\<close>, \<^verbatim>\<open>Remove\<close> and \<^verbatim>\<open>Get\<close>
  keyed by the application's name; the second one (lines 238-888) has \<^verbatim>\<open>Ensure\<close>,
  the CNAME siblings, the certificates and the status. Both are embedded here over one model of
  the cluster. Where a name occurs in both revisions, the one of the first revision carries the
  suffix \<open>_v1\<close>.

  Go returns \<^verbatim>\<open>(value, error)\<close>; the model returns \<open>error + value\<close> with
  \<open>Inl\<close> for the error, paired with the cluster the call leaves behind. A function that
  returns only \<^verbatim>\<open>error\<close> gives \<open>error option\<close>, \<open>None\<close> for
  \<^verbatim>\<open>nil\<close>. A runtime panic (nil dereference, index out of range, assignment to
  an entry of a nil map) is the error \<open>Panic\<close> and, like the panic, ends every caller.
\<close>

subsection \<open>Errors\<close>

datatype error =
    NotFound                      \<comment> \<open>the store's not-found status: \<^verbatim>\<open>k8sErrors.IsNotFound\<close> holds\<close>
  | AlreadyExists                 \<comment> \<open>the store's answer to a create of an existing name\<close>
  | StoreError string             \<comment> \<open>any other error of the store or of a helper\<close>
  | ErrNoService string string    \<comment> \<open>\<^verbatim>\<open>ErrNoService{App, Process}\<close>\<close>
  | ErrAppSwapped string string   \<comment> \<open>\<^verbatim>\<open>ErrAppSwapped{App, DstApp}\<close>\<close>
  | RollbackFailed error error    \<comment> \<open>\<^verbatim>\<open>fmt.Errorf("failed to rollback swap %v: %v", err, errRollback)\<close>\<close>
  | Wrapf error string string     \<comment> \<open>\<^verbatim>\<open>errors.Wrapf(err, format, cname)\<close>\<close>
  | Panic

fun IsNotFound :: "error \<Rightarrow> bool" where
  "IsNotFound NotFound = True"
| "IsNotFound _ = False"

subsection \<open>Go maps and slices\<close>

text \<open>
  A Go \<^verbatim>\<open>map[string]string\<close> is \<open>None\<close> when it is nil. Reading a nil map
  gives the zero value, ranging over it visits nothing, deleting from it does nothing, and
  assigning to one of its entries panics.
\<close>

type_synonym gomap = "(string, string) fmap option"

definition lookup_ok :: "gomap \<Rightarrow> string \<Rightarrow> string option" where
  \<comment> \<open>\<^verbatim>\<open>v, ok := m[k]\<close>\<close>
  "lookup_ok m k = (case m of None \<Rightarrow> None | Some f \<Rightarrow> fmlookup f k)"

definition index :: "gomap \<Rightarrow> string \<Rightarrow> string" where
  \<comment> \<open>\<^verbatim>\<open>m[k]\<close>: the empty string when the key is missing\<close>
  "index m k = (case lookup_ok m k of None \<Rightarrow> [] | Some v \<Rightarrow> v)"

definition assign :: "gomap \<Rightarrow> string \<Rightarrow> string \<Rightarrow> error + gomap" where
  \<comment> \<open>\<^verbatim>\<open>m[k] = v\<close>\<close>
  "assign m k v = (case m of None \<Rightarrow> Inl Panic | Some f \<Rightarrow> Inr (Some (fmupd k v f)))"

definition delete :: "gomap \<Rightarrow> string \<Rightarrow> gomap" where
  \<comment> \<open>\<^verbatim>\<open>delete(m, k)\<close>\<close>
  "delete m k = (case m of None \<Rightarrow> None | Some f \<Rightarrow> Some (fmdrop k f))"

definition range_all :: "(string \<Rightarrow> string \<Rightarrow> bool) \<Rightarrow> gomap \<Rightarrow> bool" where
  \<comment> \<open>a \<^verbatim>\<open>for key, value := range m\<close> that leaves at the first entry failing \<open>P\<close>
      has run to its end\<close>
  "range_all P m = (case m of None \<Rightarrow> True | Some f \<Rightarrow> fmpred P f)"

text \<open>
  Go leaves the order of a range over a map open, and the order may differ from one range to
  the next, also over the same map. Where the effect of one entry can depend on the entries
  visited before it, the model takes the map as the list of its entries, each key once, and
  every range with a list of choices of its own: \<open>rangeOrder\<close> picks, by the next
  choice, the entry to visit among those not visited yet, and visits what is left as it is listed
  once the choices have run out. Every list of choices gives a permutation of the entries, and
  every permutation is given by a list of choices.

  A call that runs several such ranges takes the list of their choices, one for each range in
  the order in which they run; a range for which the list has nothing left visits the entries
  as they are listed.
\<close>

fun rangeOrder :: "nat list \<Rightarrow> 'a list \<Rightarrow> 'a list" where
  "rangeOrder [] entries = entries"
| "rangeOrder (n # ns) entries =
     (if entries = [] then []
      else (let i = n mod length entries
            in entries ! i # rangeOrder ns (take i entries @ drop (Suc i) entries)))"

definition firstRange :: "nat list list \<Rightarrow> nat list" where
  "firstRange ords = (case ords of [] \<Rightarrow> [] | ord # _ \<Rightarrow> ord)"

definition laterRanges :: "nat list list \<Rightarrow> nat list list" where
  "laterRanges ords = (case ords of [] \<Rightarrow> [] | _ # rest \<Rightarrow> rest)"

text \<open>
  A Go slice that \<^verbatim>\<open>reflect.DeepEqual\<close> looks at is \<open>None\<close> when it is nil:
  a nil slice and an empty one are not deeply equal.
\<close>

type_synonym 'a slice = "'a list option"

definition len :: "'a slice \<Rightarrow> nat" where
  "len s = (case s of None \<Rightarrow> 0 | Some xs \<Rightarrow> length xs)"

definition elems :: "'a slice \<Rightarrow> 'a list" where
  "elems s = (case s of None \<Rightarrow> [] | Some xs \<Rightarrow> xs)"

subsection \<open>The objects of the cluster\<close>

datatype IntOrString = FromInt int | FromString string

record IngressBackend =
  ServiceName :: string
  ServicePort :: IntOrString

record IngressTLS =
  Hosts :: "string slice"
  SecretName :: string

record HTTPIngressPath =
  Path :: string
  PathType :: "string option"
  path_Backend :: IngressBackend

record HTTPIngressRuleValue =
  Paths :: "HTTPIngressPath slice"

record IngressRule =
  Host :: string
  HTTP :: "HTTPIngressRuleValue option"

record IngressSpec =
  Backend :: "IngressBackend option"
  TLS :: "IngressTLS slice"
  Rules :: "IngressRule slice"

record OwnerReference =
  owner_Kind :: string
  owner_Name :: string
  owner_UID :: string

record ObjectMeta =
  Name :: string
  Namespace :: string
  UID :: string
  ResourceVersion :: string
  Labels :: gomap
  Annotations :: gomap
  OwnerReferences :: "OwnerReference list"

text \<open>
  \<open>LoadBalancer\<close> is \<^verbatim>\<open>Status.LoadBalancer.Ingress\<close>, one \<^verbatim>\<open>IP\<close> for each
  entry. The code reads its length and its first entry only.
\<close>

record Ingress =
  Meta :: ObjectMeta
  Spec :: IngressSpec
  LoadBalancer :: "string list"

record Service =
  svc_Meta :: ObjectMeta
  Ports :: "int list"   \<comment> \<open>\<^verbatim>\<open>Spec.Ports[i].Port\<close>\<close>

record Secret =
  sec_Meta :: ObjectMeta
  Type :: string
  StringData :: "(string, string) fmap"

subsection \<open>The cluster and its client\<close>

text \<open>
  The store keeps the objects by namespace and name and gives back on a read what was written
  last; a create or an update files the object under the name it carries. The store neither
  sets nor compares version tokens, and it fills in no defaults. \<open>requests\<close> is the log
  of the mutating calls it has received, the newest last, whether they were served or not.
  \<open>pending\<close> scripts the store's failures: every call takes the head of the list, and
  fails with that error, changing nothing, when the head is \<open>Some e\<close>; on an empty list
  every call is served. A call that is served fails only as the store itself would: a read, an
  update or a delete of a missing name with \<open>NotFound\<close>, a create of a name that exists
  with \<open>AlreadyExists\<close>. \<open>Apps\<close> is the optional registration record of an
  application: the namespace it names.
\<close>

datatype request = CreateIngress string string | UpdateIngress string string
  | DeleteIngress string string | CreateSecret string string | DeleteSecret string string

record cluster =
  Ingresses :: "(string \<times> string, Ingress) fmap"
  Services :: "Service list"
  Secrets :: "(string \<times> string, Secret) fmap"
  Apps :: "(string, string) fmap"
  requests :: "request list"
  pending :: "error option list"

definition serve :: "cluster \<Rightarrow> error option \<times> cluster" where
  "serve c = (case pending c of [] \<Rightarrow> (None, c) | f # fs \<Rightarrow> (f, c\<lparr>pending := fs\<rparr>))"

definition logged :: "request \<Rightarrow> cluster \<Rightarrow> cluster" where
  "logged r c = c\<lparr>requests := requests c @ [r]\<rparr>"

definition Ingresses_Get :: "string \<Rightarrow> string \<Rightarrow> cluster \<Rightarrow> (error + Ingress) \<times> cluster" where
  "Ingresses_Get ns name c =
     (case serve c of
        (Some e, c') \<Rightarrow> (Inl e, c')
      | (None, c') \<Rightarrow>
          (case fmlookup (Ingresses c') (ns, name) of
             None \<Rightarrow> (Inl NotFound, c')
           | Some i \<Rightarrow> (Inr i, c')))"

definition Ingresses_Create :: "string \<Rightarrow> Ingress \<Rightarrow> cluster \<Rightarrow> error option \<times> cluster" where
  "Ingresses_Create ns i c =
     (case serve (logged (CreateIngress ns (Name (Meta i))) c) of
        (Some e, c') \<Rightarrow> (Some e, c')
      | (None, c') \<Rightarrow>
          (case fmlookup (Ingresses c') (ns, Name (Meta i)) of
             Some _ \<Rightarrow> (Some AlreadyExists, c')
           | None \<Rightarrow> (None, c'\<lparr>Ingresses := fmupd (ns, Name (Meta i)) i (Ingresses c')\<rparr>)))"

definition Ingresses_Update :: "string \<Rightarrow> Ingress \<Rightarrow> cluster \<Rightarrow> error option \<times> cluster" where
  "Ingresses_Update ns i c =
     (case serve (logged (UpdateIngress ns (Name (Meta i))) c) of
        (Some e, c') \<Rightarrow> (Some e, c')
      | (None, c') \<Rightarrow>
          (case fmlookup (Ingresses c') (ns, Name (Meta i)) of
             None \<Rightarrow> (Some NotFound, c')
           | Some _ \<Rightarrow> (None, c'\<lparr>Ingresses := fmupd (ns, Name (Meta i)) i (Ingresses c')\<rparr>)))"

definition Ingresses_Delete :: "string \<Rightarrow> string \<Rightarrow> cluster \<Rightarrow> error option \<times> cluster" where
  "Ingresses_Delete ns name c =
     (case serve (logged (DeleteIngress ns name) c) of
        (Some e, c') \<Rightarrow> (Some e, c')
      | (None, c') \<Rightarrow>
          (case fmlookup (Ingresses c') (ns, name) of
             None \<Rightarrow> (Some NotFound, c')
           | Some _ \<Rightarrow> (None, c'\<lparr>Ingresses := fmdrop (ns, name) (Ingresses c')\<rparr>)))"

subsection \<open>The diff check and the readiness test\<close>

definition ingressHasChanges :: "Ingress \<Rightarrow> Ingress \<Rightarrow> bool" where
  "ingressHasChanges existing ing =
     (if Spec existing \<noteq> Spec ing then True
      else if \<not> range_all (\<lambda>key value. index (Annotations (Meta existing)) key = value)
                 (Annotations (Meta ing)) then True
      else if \<not> range_all (\<lambda>key value. index (Labels (Meta existing)) key = value)
                 (Labels (Meta ing)) then True
      else False)"

definition isIngressReady :: "Ingress \<Rightarrow> bool" where
  "isIngressReady ingress =
     (if length (LoadBalancer ingress) = 0 then False
      else hd (LoadBalancer ingress) \<noteq> [])"


subsection \<open>First revision: the service keyed by the application's name\<close>

text \<open>
  The model starts from a constructed client (\<^verbatim>\<open>k.Client\<close> is not nil), so
  \<^verbatim>\<open>getClient\<close> and \<^verbatim>\<open>ingressClient\<close> return no error: the client is the
  cluster itself.
\<close>

definition defaultServicePort :: int where "defaultServicePort = 8888"
definition appLabel :: string where "appLabel = ''tsuru.io/app-name''"
definition processLabel :: string where "processLabel = ''tsuru.io/app-process''"
definition swapLabel :: string where "swapLabel = ''tsuru.io/swapped-with''"
definition webProcessName :: string where "webProcessName = ''web''"

record IngressService_v1 =
  v1_Namespace :: string

definition ingressName_v1 :: "string \<Rightarrow> string" where
  "ingressName_v1 appName = appName @ ''-ingress''"

definition get_v1 :: "IngressService_v1 \<Rightarrow> string \<Rightarrow> cluster \<Rightarrow> (error + Ingress) \<times> cluster" where
  "get_v1 k appName c = Ingresses_Get (v1_Namespace k) (ingressName_v1 appName) c"

definition Create :: "IngressService_v1 \<Rightarrow> string \<Rightarrow> cluster \<Rightarrow> error option \<times> cluster" where
  "Create k appName c =
     Ingresses_Create (v1_Namespace k)
       \<lparr>Meta = \<lparr>Name = ingressName_v1 appName, Namespace = v1_Namespace k, UID = [],
                ResourceVersion = [], Labels = Some (fmupd appLabel appName fmempty),
                Annotations = None, OwnerReferences = []\<rparr>,
        Spec = \<lparr>Backend = Some \<lparr>ServiceName = appName, ServicePort = FromInt defaultServicePort\<rparr>,
                TLS = None, Rules = None\<rparr>,
        LoadBalancer = []\<rparr> c"

text \<open>
  \<^verbatim>\<open>Services(ns).List\<close> with the label selector \<^verbatim>\<open>key=value\<close>: the services of
  the namespace that carry the label with that value, in the store's order. \<^verbatim>\<open>Update\<close>
  pastes the application's name into the selector as it is (line 84), and the store parses the
  selector; the model is the store's reading of a selector whose value is a label value, that
  is a name without a comma, an equals sign or another character of the selector syntax. For a
  name with such a character the store reads another selector, or refuses it; the theorems
  below speak of the services that the call has listed, whichever they are.
\<close>

definition Services_List :: "string \<Rightarrow> string \<Rightarrow> string \<Rightarrow> cluster \<Rightarrow> (error + Service list) \<times> cluster" where
  "Services_List ns key val c =
     (case serve c of
        (Some e, c') \<Rightarrow> (Inl e, c')
      | (None, c') \<Rightarrow>
          (Inr (filter (\<lambda>s. Namespace (svc_Meta s) = ns
                           \<and> lookup_ok (Labels (svc_Meta s)) key = Some val) (Services c')), c'))"

text \<open>
  Lines 89-105 of \<^verbatim>\<open>Update\<close>: the choice of the service among the listed ones. The
  loop leaves at the first service whose process label is \<^verbatim>\<open>web\<close>.
\<close>

definition Update_service :: "string \<Rightarrow> Service list \<Rightarrow> error + Service" where
  "Update_service appName items =
     (if length items = 0 then Inl (ErrNoService appName [])
      else if length items > 1 then
        (case find (\<lambda>s. index (Labels (svc_Meta s)) processLabel = webProcessName) items of
           Some s \<Rightarrow> Inr s
         | None \<Rightarrow> Inl (ErrNoService appName webProcessName))
      else Inr (hd items))"

definition Update :: "IngressService_v1 \<Rightarrow> string \<Rightarrow> cluster \<Rightarrow> error option \<times> cluster" where
  "Update k appName c =
     (case Services_List (v1_Namespace k) appLabel appName c of
        (Inl err, c1) \<Rightarrow> (Some err, c1)
      | (Inr items, c1) \<Rightarrow>
          (case Update_service appName items of
             Inl err \<Rightarrow> (Some err, c1)
           | Inr service \<Rightarrow>
               (case get_v1 k appName c1 of
                  (Inl err, c2) \<Rightarrow> (Some err, c2)
                | (Inr ingress, c2) \<Rightarrow>
                    (case Backend (Spec ingress) of
                       None \<Rightarrow> (Some Panic, c2)
                     | Some b \<Rightarrow>
                         if ServiceName b = Name (svc_Meta service) then (None, c2)
                         else (case Ports service of
                                 [] \<Rightarrow> (Some Panic, c2)
                               | port # _ \<Rightarrow>
                                   Ingresses_Update (v1_Namespace k)
                                     (ingress\<lparr>Spec := (Spec ingress)\<lparr>Backend :=
                                        Some (b\<lparr>ServiceName := Name (svc_Meta service),
                                                ServicePort := FromInt port\<rparr>)\<rparr>\<rparr>) c2)))))"

text \<open>
  \<^verbatim>\<open>swap\<close> changes the two objects it points to; the model returns the changed pair.
  Both backend pointers are dereferenced before anything is assigned.
\<close>

definition swap :: "Ingress \<Rightarrow> Ingress \<Rightarrow> error + (Ingress \<times> Ingress)" where
  "swap srcIngress dstIngress =
     (case (Backend (Spec srcIngress), Backend (Spec dstIngress)) of
        (Some sb, Some db) \<Rightarrow>
          (let src = srcIngress\<lparr>Spec := (Spec srcIngress)\<lparr>Backend :=
                       Some (sb\<lparr>ServiceName := ServiceName db, ServicePort := ServicePort db\<rparr>)\<rparr>\<rparr>;
               dst = dstIngress\<lparr>Spec := (Spec dstIngress)\<lparr>Backend :=
                       Some (db\<lparr>ServiceName := ServiceName sb, ServicePort := ServicePort sb\<rparr>)\<rparr>\<rparr>
           in if index (Labels (Meta src)) swapLabel = index (Labels (Meta dst)) appLabel
              then Inr (src\<lparr>Meta := (Meta src)\<lparr>Labels := delete (Labels (Meta src)) swapLabel\<rparr>\<rparr>,
                        dst\<lparr>Meta := (Meta dst)\<lparr>Labels := delete (Labels (Meta dst)) swapLabel\<rparr>\<rparr>)
              else (case assign (Labels (Meta src)) swapLabel (index (Labels (Meta dst)) appLabel) of
                      Inl e \<Rightarrow> Inl e
                    | Inr srcLabels \<Rightarrow>
                        (case assign (Labels (Meta dst)) swapLabel (index srcLabels appLabel) of
                           Inl e \<Rightarrow> Inl e
                         | Inr dstLabels \<Rightarrow>
                             Inr (src\<lparr>Meta := (Meta src)\<lparr>Labels := srcLabels\<rparr>\<rparr>,
                                  dst\<lparr>Meta := (Meta dst)\<lparr>Labels := dstLabels\<rparr>\<rparr>))))
      | _ \<Rightarrow> Inl Panic)"

definition Swap :: "IngressService_v1 \<Rightarrow> string \<Rightarrow> string \<Rightarrow> cluster \<Rightarrow> error option \<times> cluster" where
  "Swap k srcApp dstApp c =
     (case get_v1 k srcApp c of
        (Inl err, c1) \<Rightarrow> (Some err, c1)
      | (Inr srcIngress, c1) \<Rightarrow>
          (case get_v1 k dstApp c1 of
             (Inl err, c2) \<Rightarrow> (Some err, c2)
           | (Inr dstIngress, c2) \<Rightarrow>
               (case swap srcIngress dstIngress of
                  Inl p \<Rightarrow> (Some p, c2)
                | Inr (src1, dst1) \<Rightarrow>
                    (case Ingresses_Update (v1_Namespace k) src1 c2 of
                       (Some err, c3) \<Rightarrow> (Some err, c3)
                     | (None, c3) \<Rightarrow>
                         (case Ingresses_Update (v1_Namespace k) dst1 c3 of
                            (None, c4) \<Rightarrow> (None, c4)
                          | (Some err, c4) \<Rightarrow>
                              (case swap src1 dst1 of
                                 Inl p \<Rightarrow> (Some p, c4)
                               | Inr (src2, dst2) \<Rightarrow>
                                   (case Ingresses_Update (v1_Namespace k) src2 c4 of
                                      (Some errRollback, c5) \<Rightarrow>
                                        (Some (RollbackFailed err errRollback), c5)
                                    | (None, c5) \<Rightarrow> (Some err, c5))))))))"

definition Remove_v1 :: "IngressService_v1 \<Rightarrow> string \<Rightarrow> cluster \<Rightarrow> error option \<times> cluster" where
  "Remove_v1 k appName c =
     (case get_v1 k appName c of
        (Inl err, c1) \<Rightarrow> if IsNotFound err then (None, c1) else (Some err, c1)
      | (Inr ingress, c1) \<Rightarrow>
          (case lookup_ok (Labels (Meta ingress)) swapLabel of
             Some dstApp \<Rightarrow> (Some (ErrAppSwapped appName dstApp), c1)
           | None \<Rightarrow>
               (case Ingresses_Delete (v1_Namespace k) (ingressName_v1 appName) c1 of
                  (Some err, c2) \<Rightarrow> if IsNotFound err then (None, c2) else (Some err, c2)
                | (None, c2) \<Rightarrow> (None, c2))))"


subsection \<open>Second revision: the service keyed by the instance\<close>

record InstanceID =
  AppName :: string
  InstanceName :: string

record BackendTarget =
  target_Service :: string
  target_Namespace :: string

record BackendPrefix =
  Prefix :: string
  Target :: BackendTarget

text \<open>
  \<open>AdditionalOpts\<close> is a Go map that \<^verbatim>\<open>fillIngressMeta\<close> ranges over, where the
  effect of one entry can depend on the entries before it (one option can set an annotation that
  another one removes): it is the list of the map's entries, each key once, and every range
  over it has an order of its own.
\<close>

record RouterOpts =
  Domain :: string
  DomainSuffix :: string
  DomainPrefix :: string
  Route :: string
  Acme :: bool
  AdditionalOpts :: "(string \<times> string) list"

record EnsureBackendOpts =
  Opts :: RouterOpts
  Prefixes :: "BackendPrefix list"
  CNames :: "string list"
  PreserveOldCNames :: bool

datatype BackendStatus = BackendStatusReady | BackendStatusNotReady

text \<open>
  The fields of \<^verbatim>\<open>IngressService\<close> and of the \<^verbatim>\<open>BaseService\<close> it embeds
  (\<open>base_Namespace\<close>, \<open>base_Labels\<close>, \<open>base_Annotations\<close>; the two maps are only
  ranged over, so nil and empty are one). The source of \<^verbatim>\<open>BaseService\<close> and of the
  package's helpers is missing: the two label constants and the helpers
  \<^verbatim>\<open>hashedResourceName\<close>, \<^verbatim>\<open>getDefaultBackendTarget\<close>,
  \<^verbatim>\<open>getWebService\<close>, \<^verbatim>\<open>getStatusForRuntimeObject\<close> and
  \<^verbatim>\<open>mergeMaps\<close> are parameters, carried by the same record. A helper is a function
  of its arguments (\<open>getWebService\<close> also of the services of the cluster) and leaves the
  cluster as it is.
\<close>

record IngressService =
  base_Namespace :: string
  base_Labels :: "(string, string) fmap"
  base_Annotations :: "(string, string) fmap"
  k_DomainSuffix :: string
  AnnotationsPrefix :: string
  IngressClass :: string
  OptsAsAnnotations :: "(string \<times> string) list"
  appBaseServiceNamespaceLabel :: string
  appBaseServiceNameLabel :: string
  hashedResourceName :: "InstanceID \<Rightarrow> string \<Rightarrow> nat \<Rightarrow> string"
  getDefaultBackendTarget :: "BackendPrefix list \<Rightarrow> error + BackendTarget"
  getWebService :: "Service list \<Rightarrow> string \<Rightarrow> BackendTarget \<Rightarrow> error + Service"
  getStatusForRuntimeObject :: "string \<Rightarrow> string \<Rightarrow> string \<Rightarrow> error + string"
  mergeMaps :: "(string \<times> string) list \<Rightarrow> (string \<times> string) list \<Rightarrow> (string \<times> string) list"

definition AnnotationsACMEKey :: string where "AnnotationsACMEKey = ''kubernetes.io/tls-acme''"
definition labelCNameIngress :: string where "labelCNameIngress = ''router.tsuru.io/is-cname-ingress''"
definition AnnotationsCNames :: string where "AnnotationsCNames = ''router.tsuru.io/cnames''"
definition defaultClassOpt :: string where "defaultClassOpt = ''class''"
definition defaultOptsAsAnnotations :: "(string \<times> string) list" where
  "defaultOptsAsAnnotations = [(defaultClassOpt, ''kubernetes.io/ingress.class'')]"

text \<open>
  Modelled from the spec: \<^verbatim>\<open>getAppNamespace\<close>, a method of
  \<^verbatim>\<open>BaseService\<close> whose source is missing. It looks up the optional registration
  record of the application; if it is found and names a namespace, that one is returned,
  otherwise the configured default; a lookup error other than not-found is returned.
\<close>

definition getAppNamespace :: "IngressService \<Rightarrow> string \<Rightarrow> cluster \<Rightarrow> (error + string) \<times> cluster" where
  "getAppNamespace k appName c =
     (case serve c of
        (Some e, c') \<Rightarrow> if IsNotFound e then (Inr (base_Namespace k), c') else (Inl e, c')
      | (None, c') \<Rightarrow>
          (case fmlookup (Apps c') appName of
             None \<Rightarrow> (Inr (base_Namespace k), c')
           | Some ns \<Rightarrow> (Inr (if ns = [] then base_Namespace k else ns), c')))"

text \<open>
  Modelled from the spec: \<^verbatim>\<open>diffCNames\<close>, a function of the package whose
  source is missing. Additions are the target without the previous names, removals the
  previous names without the target, as plain set differences.
\<close>

definition diffCNames :: "string list \<Rightarrow> string list \<Rightarrow> string list \<times> string list" where
  "diffCNames existing new =
     (filter (\<lambda>cname. cname \<notin> set existing) (remdups new),
      filter (\<lambda>cname. cname \<notin> set new) (remdups existing))"

definition ingressName :: "IngressService \<Rightarrow> InstanceID \<Rightarrow> string" where
  "ingressName s iid = hashedResourceName s iid (''kubernetes-router-'' @ AppName iid @ ''-ingress'') 253"

definition ingressCName :: "IngressService \<Rightarrow> InstanceID \<Rightarrow> string \<Rightarrow> string" where
  "ingressCName s iid cname = hashedResourceName s iid (''kubernetes-router-cname-'' @ cname) 253"

definition secretName :: "IngressService \<Rightarrow> InstanceID \<Rightarrow> string \<Rightarrow> string" where
  "secretName s iid certName = hashedResourceName s iid (''kr-'' @ AppName iid @ ''-'' @ certName) 253"

definition annotationWithPrefix :: "IngressService \<Rightarrow> string \<Rightarrow> string" where
  "annotationWithPrefix s suffix =
     (if AnnotationsPrefix s = [] then suffix else AnnotationsPrefix s @ ''/'' @ suffix)"

definition get :: "IngressService \<Rightarrow> InstanceID \<Rightarrow> cluster \<Rightarrow> (error + Ingress) \<times> cluster" where
  "get k iid c =
     (case getAppNamespace k (AppName iid) c of
        (Inl err, c1) \<Rightarrow> (Inl err, c1)
      | (Inr ns, c1) \<Rightarrow> Ingresses_Get ns (ingressName k iid) c1)"

definition Remove :: "IngressService \<Rightarrow> InstanceID \<Rightarrow> cluster \<Rightarrow> error option \<times> cluster" where
  "Remove k iid c =
     (case getAppNamespace k (AppName iid) c of
        (Inl err, c1) \<Rightarrow> (Some err, c1)
      | (Inr ns, c1) \<Rightarrow>
          (case Ingresses_Delete ns (ingressName k iid) c1 of
             (Some err, c2) \<Rightarrow> if IsNotFound err then (None, c2) else (Some err, c2)
           | (None, c2) \<Rightarrow> (None, c2)))"

definition GetAddresses :: "IngressService \<Rightarrow> InstanceID \<Rightarrow> cluster \<Rightarrow> (error + string list) \<times> cluster" where
  "GetAddresses k iid c =
     (case get k iid c of
        (Inl err, c1) \<Rightarrow> if IsNotFound err then (Inr [[]], c1) else (Inl err, c1)
      | (Inr ingress, c1) \<Rightarrow>
          (case elems (Rules (Spec ingress)) of
             [] \<Rightarrow> (Inl Panic, c1)
           | rule # _ \<Rightarrow> (Inr [Host rule], c1)))"

definition GetStatus :: "IngressService \<Rightarrow> InstanceID \<Rightarrow> cluster
    \<Rightarrow> (BackendStatus \<times> string \<times> error option) \<times> cluster" where
  "GetStatus k iid c =
     (case get k iid c of
        (Inl err, c1) \<Rightarrow> ((BackendStatusNotReady, [], Some err), c1)
      | (Inr ingress, c1) \<Rightarrow>
          if isIngressReady ingress then ((BackendStatusReady, [], None), c1)
          else (case getStatusForRuntimeObject k (Namespace (Meta ingress)) ''Ingress''
                       (UID (Meta ingress)) of
                  Inl err \<Rightarrow> ((BackendStatusNotReady, [], Some err), c1)
                | Inr detail \<Rightarrow> ((BackendStatusNotReady, detail, None), c1)))"


subsection \<open>The desired object\<close>

text \<open>Indexing \<^verbatim>\<open>service.Spec.Ports[0]\<close> panics on a service without ports.\<close>

definition buildIngressSpec :: "string \<Rightarrow> string \<Rightarrow> Service \<Rightarrow> error + IngressSpec" where
  "buildIngressSpec host path service =
     (case Ports service of
        [] \<Rightarrow> Inl Panic
      | port # _ \<Rightarrow>
          Inr \<lparr>Backend = None, TLS = None,
               Rules = Some [\<lparr>Host = host,
                 HTTP = Some \<lparr>Paths = Some [\<lparr>Path = path,
                   PathType = Some ''ImplementationSpecific'',
                   path_Backend = \<lparr>ServiceName = Name (svc_Meta service),
                                   ServicePort = FromInt port\<rparr>\<rparr>]\<rparr>\<rparr>]\<rparr>)"

definition NewControllerRef :: "Service \<Rightarrow> OwnerReference" where
  "NewControllerRef service =
     \<lparr>owner_Kind = ''Service'', owner_Name = Name (svc_Meta service),
      owner_UID = UID (svc_Meta service)\<rparr>"

definition HasSuffix :: "string \<Rightarrow> string \<Rightarrow> bool" where
  "HasSuffix s suffix =
     (length suffix \<le> length s \<and> drop (length s - length suffix) s = suffix)"

definition TrimSuffix :: "string \<Rightarrow> string \<Rightarrow> string" where
  "TrimSuffix s suffix = (if HasSuffix s suffix then take (length s - length suffix) s else s)"

text \<open>
  The map that \<^verbatim>\<open>fillIngressMeta\<close> ranges over (lines 805-810), and the name of the
  annotation that stands for an option (lines 812 and 814-821).
\<close>

definition mergedOpts :: "IngressService \<Rightarrow> RouterOpts \<Rightarrow> (string \<times> string) list" where
  "mergedOpts s routerOpts =
     (if IngressClass s \<noteq> []
      then mergeMaps s (AdditionalOpts routerOpts) [(defaultClassOpt, IngressClass s)]
      else AdditionalOpts routerOpts)"

definition optLabel :: "IngressService \<Rightarrow> string \<Rightarrow> string" where
  "optLabel s optName =
     (case map_of (mergeMaps s defaultOptsAsAnnotations (OptsAsAnnotations s)) optName of
        Some l \<Rightarrow> l
      | None \<Rightarrow> if CHR ''/'' \<in> set optName then optName
                else annotationWithPrefix s optName)"

text \<open>The body of the range over \<^verbatim>\<open>additionalOpts\<close> (lines 813-827).\<close>

definition optAnnotation :: "IngressService \<Rightarrow> (string, string) fmap
    \<Rightarrow> string \<times> string \<Rightarrow> (string, string) fmap" where
  "optAnnotation s annotations opt =
     (case opt of (optName, optValue) \<Rightarrow>
        (let labelName = optLabel s optName
         in if HasSuffix labelName ''-''
            then fmdrop (TrimSuffix labelName ''-'') annotations
            else fmupd labelName optValue annotations))"

text \<open>
  \<^verbatim>\<open>fillIngressMeta\<close>, with the choices \<open>ord\<close> of its range over the options.
  The two ranges before it (lines 797-802) only assign, each key once, so their order does
  not matter.
\<close>

definition fillIngressMeta :: "IngressService \<Rightarrow> Ingress \<Rightarrow> RouterOpts \<Rightarrow> InstanceID
    \<Rightarrow> nat list \<Rightarrow> Ingress" where
  "fillIngressMeta s i routerOpts iid ord =
     (let labels0 = (case Labels (Meta i) of None \<Rightarrow> fmempty | Some f \<Rightarrow> f);
          annotations0 = (case Annotations (Meta i) of None \<Rightarrow> fmempty | Some f \<Rightarrow> f);
          labels = fmupd appLabel (AppName iid) (labels0 ++\<^sub>f base_Labels s);
          annotations1 = annotations0 ++\<^sub>f base_Annotations s;
          annotations = foldl (optAnnotation s) annotations1
                          (rangeOrder ord (mergedOpts s routerOpts));
          i1 = i\<lparr>Meta := (Meta i)\<lparr>Labels := Some labels, Annotations := Some annotations\<rparr>\<rparr>
      in if \<not> Acme routerOpts then i1
         else (let i2 = (case elems (Rules (Spec i1)) of
                           [] \<Rightarrow> i1
                         | rule # _ \<Rightarrow>
                             i1\<lparr>Spec := (Spec i1)\<lparr>TLS :=
                               Some [\<lparr>Hosts = Some [Host rule],
                                      SecretName = secretName s iid (Host rule)\<rparr>]\<rparr>\<rparr>)
               in i2\<lparr>Meta := (Meta i2)\<lparr>Annotations :=
                       Some (fmupd AnnotationsACMEKey ''true'' annotations)\<rparr>\<rparr>))"

text \<open>
  Lines 429-432 and 541-544: the object that is written on an update carries the version token
  of the existing one and, when the existing one has a default backend, that backend.
\<close>

definition carryOver :: "Ingress \<Rightarrow> Ingress \<Rightarrow> Ingress" where
  "carryOver existingIngress ingress =
     (let ingress1 = ingress\<lparr>Meta := (Meta ingress)\<lparr>ResourceVersion :=
                        ResourceVersion (Meta existingIngress)\<rparr>\<rparr>
      in if Backend (Spec existingIngress) \<noteq> None
         then ingress1\<lparr>Spec := (Spec ingress1)\<lparr>Backend := Backend (Spec existingIngress)\<rparr>\<rparr>
         else ingress1)"

text \<open>
  What a caller makes of the result of a \<^verbatim>\<open>Get\<close>: not-found is no error, the object
  is new (\<open>None\<close>).
\<close>

definition orNew :: "error + Ingress \<Rightarrow> error + Ingress option" where
  "orNew r = (case r of
                Inl err \<Rightarrow> if \<not> IsNotFound err then Inl err else Inr None
              | Inr existingIngress \<Rightarrow> Inr (Some existingIngress))"

definition createOrUpdate :: "string \<Rightarrow> Ingress option \<Rightarrow> Ingress \<Rightarrow> cluster \<Rightarrow> error option \<times> cluster" where
  \<comment> \<open>lines 419-440 and 534-549\<close>
  "createOrUpdate ns existing ingress c =
     (case existing of
        None \<Rightarrow> Ingresses_Create ns ingress c
      | Some existingIngress \<Rightarrow>
          if ingressHasChanges existingIngress ingress
          then Ingresses_Update ns (carryOver existingIngress ingress) c
          else (None, c))"

subsection \<open>The CNAME siblings\<close>

record ensureCNameBackendOpts =
  opts_namespace :: string
  opts_id :: InstanceID
  opts_cname :: string
  opts_service :: Service
  opts_routerOpts :: RouterOpts

definition cnameIngress :: "IngressService \<Rightarrow> ensureCNameBackendOpts \<Rightarrow> nat list
    \<Rightarrow> error + Ingress" where
  \<comment> \<open>lines 501-532\<close>
  "cnameIngress k opts ord =
     (case buildIngressSpec (opts_cname opts) (Route (opts_routerOpts opts)) (opts_service opts) of
        Inl p \<Rightarrow> Inl p
      | Inr spec \<Rightarrow>
          (let ingress0 =
                 \<lparr>Meta = \<lparr>Name = ingressCName k (opts_id opts) (opts_cname opts),
                          Namespace = opts_namespace opts, UID = [], ResourceVersion = [],
                          Labels = Some (fmupd labelCNameIngress ''true''
                            (fmupd (appBaseServiceNameLabel k) (Name (svc_Meta (opts_service opts)))
                              (fmupd (appBaseServiceNamespaceLabel k)
                                 (Namespace (svc_Meta (opts_service opts))) fmempty))),
                          Annotations = None,
                          OwnerReferences = [NewControllerRef (opts_service opts)]\<rparr>,
                  Spec = spec, LoadBalancer = []\<rparr>;
               ingress = fillIngressMeta k ingress0 (opts_routerOpts opts) (opts_id opts) ord
           in if index (Annotations (Meta ingress)) AnnotationsACMEKey = ''true''
              then Inr (ingress\<lparr>Spec := (Spec ingress)\<lparr>TLS :=
                     Some (elems (TLS (Spec ingress)) @
                       [\<lparr>Hosts = Some [opts_cname opts],
                         SecretName = secretName k (opts_id opts) (opts_cname opts)\<rparr>])\<rparr>\<rparr>)
              else Inr ingress))"

definition ensureCNameBackend :: "IngressService \<Rightarrow> ensureCNameBackendOpts \<Rightarrow> nat list
    \<Rightarrow> cluster \<Rightarrow> error option \<times> cluster" where
  "ensureCNameBackend k opts ord c =
     (case Ingresses_Get (opts_namespace opts) (ingressCName k (opts_id opts) (opts_cname opts)) c of
        (r, c1) \<Rightarrow>
          (case orNew r of
             Inl err \<Rightarrow> (Some err, c1)
           | Inr existing \<Rightarrow>
               (case cnameIngress k opts ord of
                  Inl p \<Rightarrow> (Some p, c1)
                | Inr ingress \<Rightarrow> createOrUpdate (opts_namespace opts) existing ingress c1)))"

definition removeCNameBackend :: "IngressService \<Rightarrow> ensureCNameBackendOpts \<Rightarrow> cluster \<Rightarrow> error option \<times> cluster" where
  "removeCNameBackend k opts c =
     (case Ingresses_Delete (opts_namespace opts) (ingressCName k (opts_id opts) (opts_cname opts)) c of
        (Some err, c1) \<Rightarrow> if \<not> IsNotFound err then (Some err, c1) else (None, c1)
      | (None, c1) \<Rightarrow> (None, c1))"


subsection \<open>Ensure\<close>

fun Join :: "string list \<Rightarrow> string \<Rightarrow> string" where
  "Join [] sep = []"
| "Join [x] sep = x"
| "Join (x # y # ys) sep = x @ sep @ Join (y # ys) sep"

text \<open>
  \<^verbatim>\<open>strings.Split\<close> at a separator of one character: the empty string splits into
  one empty field.
\<close>

fun Split :: "string \<Rightarrow> char \<Rightarrow> string list" where
  "Split [] sep = [[]]"
| "Split (ch # s) sep =
     (if ch = sep then [] # Split s sep
      else (case Split s sep of
              [] \<Rightarrow> [[ch]]
            | w # ws \<Rightarrow> (ch # w) # ws))"

definition wrapf :: "error \<Rightarrow> string \<Rightarrow> string \<Rightarrow> error" where
  \<comment> \<open>\<^verbatim>\<open>errors.Wrapf\<close> of a returned error; a panic is not a returned error\<close>
  "wrapf err format arg = (if err = Panic then Panic else Wrapf err format arg)"

definition vhost :: "IngressService \<Rightarrow> InstanceID \<Rightarrow> RouterOpts \<Rightarrow> string" where
  \<comment> \<open>lines 343-355\<close>
  "vhost k iid ropts =
     (let domainSuffix = (if k_DomainSuffix k \<noteq> [] then k_DomainSuffix k else DomainSuffix ropts)
      in if length (Domain ropts) > 0 then Domain ropts
         else if DomainPrefix ropts = [] then AppName iid @ ''.'' @ domainSuffix
         else DomainPrefix ropts @ ''.'' @ AppName iid @ ''.'' @ domainSuffix)"

definition primaryIngress :: "IngressService \<Rightarrow> InstanceID \<Rightarrow> EnsureBackendOpts \<Rightarrow> string
    \<Rightarrow> BackendTarget \<Rightarrow> Service \<Rightarrow> nat list \<Rightarrow> error + Ingress" where
  \<comment> \<open>lines 357-378\<close>
  "primaryIngress k iid ebo ns defaultTarget service ord =
     (case buildIngressSpec (vhost k iid (Opts ebo)) (Route (Opts ebo)) service of
        Inl p \<Rightarrow> Inl p
      | Inr spec \<Rightarrow>
          (let ingress0 =
                 \<lparr>Meta = \<lparr>Name = ingressName k iid, Namespace = ns, UID = [], ResourceVersion = [],
                          Labels = Some (fmupd (appBaseServiceNameLabel k) (target_Service defaultTarget)
                            (fmupd (appBaseServiceNamespaceLabel k)
                               (target_Namespace defaultTarget) fmempty)),
                          Annotations = None,
                          OwnerReferences = [NewControllerRef service]\<rparr>,
                  Spec = spec, LoadBalancer = []\<rparr>;
               ingress = fillIngressMeta k ingress0 (Opts ebo) iid ord
           in if length (CNames ebo) > 1
              then (case assign (Annotations (Meta ingress)) AnnotationsCNames
                           (Join (CNames ebo) '','') of
                      Inl p \<Rightarrow> Inl p
                    | Inr annotations \<Rightarrow>
                        Inr (ingress\<lparr>Meta := (Meta ingress)\<lparr>Annotations := annotations\<rparr>\<rparr>))
              else Inr ingress))"

fun ensureCNames :: "IngressService \<Rightarrow> string \<Rightarrow> InstanceID \<Rightarrow> Service \<Rightarrow> RouterOpts
    \<Rightarrow> string list \<Rightarrow> nat list list \<Rightarrow> cluster \<Rightarrow> error option \<times> cluster" where
  \<comment> \<open>the loop of lines 386-399; every turn runs one range over the options\<close>
  "ensureCNames k ns iid svc ropts [] ords c = (None, c)"
| "ensureCNames k ns iid svc ropts (cn # rest) ords c =
     (case ensureCNameBackend k
             \<lparr>opts_namespace = ns, opts_id = iid, opts_cname = cn, opts_service = svc,
              opts_routerOpts = ropts\<rparr> (firstRange ords) c of
        (Some err, c1) \<Rightarrow> (Some (wrapf err ''could not ensure CName: %q'' cn), c1)
      | (None, c1) \<Rightarrow> ensureCNames k ns iid svc ropts rest (laterRanges ords) c1)"

fun removeCNames :: "IngressService \<Rightarrow> string \<Rightarrow> InstanceID \<Rightarrow> Service \<Rightarrow> RouterOpts
    \<Rightarrow> string list \<Rightarrow> cluster \<Rightarrow> error option \<times> cluster" where
  \<comment> \<open>the loop of lines 405-418\<close>
  "removeCNames k ns iid svc ropts [] c = (None, c)"
| "removeCNames k ns iid svc ropts (cn # rest) c =
     (case removeCNameBackend k
             \<lparr>opts_namespace = ns, opts_id = iid, opts_cname = cn, opts_service = svc,
              opts_routerOpts = ropts\<rparr> c of
        (Some err, c1) \<Rightarrow> (Some (wrapf err ''could not remove CName: %q'' cn), c1)
      | (None, c1) \<Rightarrow> removeCNames k ns iid svc ropts rest c1)"

text \<open>
  Lines 380-384 and 401-403: the names recorded on the existing primary object, and those of
  them that \<^verbatim>\<open>Ensure\<close> removes.
\<close>

definition existingCNames :: "Ingress option \<Rightarrow> string list" where
  "existingCNames existing =
     (case existing of
        None \<Rightarrow> []
      | Some existingIngress \<Rightarrow>
          Split (index (Annotations (Meta existingIngress)) AnnotationsCNames) CHR '','')"

definition cnamesToRemove :: "EnsureBackendOpts \<Rightarrow> Ingress option \<Rightarrow> string list" where
  "cnamesToRemove ebo existing =
     (if PreserveOldCNames ebo then []
      else snd (diffCNames (existingCNames existing) (CNames ebo)))"

text \<open>
  \<^verbatim>\<open>Ensure\<close>, with the choices \<open>ords\<close> of its ranges over the options: the
  first is the range for the primary object (line 375), the later ones are those for the
  siblings, in the order of the aliases.
\<close>

definition Ensure :: "IngressService \<Rightarrow> InstanceID \<Rightarrow> EnsureBackendOpts \<Rightarrow> nat list list
    \<Rightarrow> cluster \<Rightarrow> error option \<times> cluster" where
  "Ensure k iid ebo ords c =
     (case getAppNamespace k (AppName iid) c of
        (Inl err, c1) \<Rightarrow> (Some err, c1)
      | (Inr ns, c1) \<Rightarrow>
          (case get k iid c1 of
             (r, c2) \<Rightarrow>
               (case orNew r of
                  Inl err \<Rightarrow> (Some err, c2)
                | Inr existing \<Rightarrow>
                    (case getDefaultBackendTarget k (Prefixes ebo) of
                       Inl err \<Rightarrow> (Some err, c2)
                     | Inr defaultTarget \<Rightarrow>
                         (case getWebService k (Services c2) (AppName iid) defaultTarget of
                            Inl err \<Rightarrow> (Some err, c2)
                          | Inr svc \<Rightarrow>
                              (case primaryIngress k iid ebo ns defaultTarget svc
                                      (firstRange ords) of
                                 Inl p \<Rightarrow> (Some p, c2)
                               | Inr ingress \<Rightarrow>
                                   (case ensureCNames k ns iid svc (Opts ebo) (CNames ebo)
                                           (laterRanges ords) c2 of
                                      (Some err, c3) \<Rightarrow> (Some err, c3)
                                    | (None, c3) \<Rightarrow>
                                        (case removeCNames k ns iid svc (Opts ebo)
                                                (cnamesToRemove ebo existing) c3 of
                                           (Some err, c4) \<Rightarrow> (Some err, c4)
                                         | (None, c4) \<Rightarrow>
                                             createOrUpdate ns existing ingress c4))))))))"

subsection \<open>Certificates\<close>

definition Secrets_Delete :: "string \<Rightarrow> string \<Rightarrow> cluster \<Rightarrow> error option \<times> cluster" where
  "Secrets_Delete ns name c =
     (case serve (logged (DeleteSecret ns name) c) of
        (Some e, c') \<Rightarrow> (Some e, c')
      | (None, c') \<Rightarrow>
          (case fmlookup (Secrets c') (ns, name) of
             None \<Rightarrow> (Some NotFound, c')
           | Some _ \<Rightarrow> (None, c'\<lparr>Secrets := fmdrop (ns, name) (Secrets c')\<rparr>)))"

text \<open>
  The inner range of \<^verbatim>\<open>RemoveCertificate\<close> (lines 759-763) at the index \<open>k\<close>, over the
  hosts of the entry that was at \<open>k\<close> when the range began; \<open>tls\<close> is the current value of
  \<^verbatim>\<open>ingress.Spec.TLS\<close>. The slice expression \<^verbatim>\<open>TLS[k+1:]\<close> panics when
  \<open>k + 1\<close> is beyond the current length.
\<close>

fun spliceHosts :: "nat \<Rightarrow> string \<Rightarrow> string list \<Rightarrow> IngressTLS list \<Rightarrow> error + IngressTLS list" where
  "spliceHosts k certCname [] tls = Inr tls"
| "spliceHosts k certCname (host # hosts) tls =
     (if certCname = host
      then (if k + 1 > length tls then Inl Panic
            else spliceHosts k certCname hosts (take k tls @ drop (k + 1) tls))
      else spliceHosts k certCname hosts tls)"

text \<open>
  The outer range (lines 758-764) over the indices that the slice had when the range began. The
  index expression \<^verbatim>\<open>ingress.Spec.TLS[k]\<close> reads the current slice and panics when
  \<open>k\<close> is not below its current length.
\<close>

fun spliceTLS :: "nat list \<Rightarrow> string \<Rightarrow> IngressTLS list \<Rightarrow> error + IngressTLS list" where
  "spliceTLS [] certCname tls = Inr tls"
| "spliceTLS (k # ks) certCname tls =
     (if k \<ge> length tls then Inl Panic
      else (case spliceHosts k certCname (elems (Hosts (tls ! k))) tls of
              Inl p \<Rightarrow> Inl p
            | Inr tls' \<Rightarrow> spliceTLS ks certCname tls'))"

definition RemoveCertificate :: "IngressService \<Rightarrow> InstanceID \<Rightarrow> string \<Rightarrow> cluster \<Rightarrow> error option \<times> cluster" where
  "RemoveCertificate k iid certCname c =
     (case getAppNamespace k (AppName iid) c of
        (Inl err, c1) \<Rightarrow> (Some err, c1)
      | (Inr ns, c1) \<Rightarrow>
          (case get k iid c1 of
             (Inl err, c2) \<Rightarrow> (Some err, c2)
           | (Inr ingress, c2) \<Rightarrow>
               (case (case TLS (Spec ingress) of
                        None \<Rightarrow> Inr None
                      | Some tls \<Rightarrow> map_sum (\<lambda>p. p) Some
                                      (spliceTLS [0..<length tls] certCname tls)) of
                  Inl p \<Rightarrow> (Some p, c2)
                | Inr tls' \<Rightarrow>
                    (case Ingresses_Update ns (ingress\<lparr>Spec := (Spec ingress)\<lparr>TLS := tls'\<rparr>\<rparr>) c2 of
                       (Some err, c3) \<Rightarrow> (Some err, c3)
                     | (None, c3) \<Rightarrow> Secrets_Delete ns (secretName k iid certCname) c3))))"

subsection \<open>Example objects\<close>

text \<open>Concrete objects, services and clusters at which the theorems below are evaluated.\<close>

definition bareIngress :: Ingress where
  "bareIngress =
     \<lparr>Meta = \<lparr>Name = ''n'', Namespace = ''default'', UID = ''u1'', ResourceVersion = [],
              Labels = None, Annotations = None, OwnerReferences = []\<rparr>,
      Spec = \<lparr>Backend = None, TLS = None, Rules = None\<rparr>, LoadBalancer = []\<rparr>"

definition exampleService :: IngressService where
  "exampleService =
     \<lparr>base_Namespace = ''default'', base_Labels = fmempty, base_Annotations = fmempty,
      k_DomainSuffix = ''cloud'', AnnotationsPrefix = [], IngressClass = [],
      OptsAsAnnotations = [], appBaseServiceNamespaceLabel = ''base-ns'',
      appBaseServiceNameLabel = ''base-name'',
      hashedResourceName = (\<lambda>iid name limit. name),
      getDefaultBackendTarget =
        (\<lambda>prefixes. Inr \<lparr>target_Service = ''web'', target_Namespace = ''default''\<rparr>),
      getWebService =
        (\<lambda>services appName target.
           case services of [] \<Rightarrow> Inl (ErrNoService appName []) | s # _ \<Rightarrow> Inr s),
      getStatusForRuntimeObject = (\<lambda>ns kind uid. Inl (StoreError ''events'')),
      mergeMaps = (\<lambda>a b. filter (\<lambda>entry. map_of b (fst entry) = None) a @ b)\<rparr>"

definition emptyCluster :: cluster where
  "emptyCluster = \<lparr>Ingresses = fmempty, Services = [], Secrets = fmempty, Apps = fmempty,
                    requests = [], pending = []\<rparr>"

definition app1 :: InstanceID where
  "app1 = \<lparr>AppName = ''a'', InstanceName = []\<rparr>"

definition hostIngress :: Ingress where
  "hostIngress =
     bareIngress\<lparr>Spec := (Spec bareIngress)\<lparr>Rules := Some [\<lparr>Host = ''a.cloud'', HTTP = None\<rparr>]\<rparr>\<rparr>"

definition notReadyCluster :: cluster where
  "notReadyCluster =
     emptyCluster\<lparr>Ingresses :=
       fmupd (''default'', ''kubernetes-router-a-ingress'') hostIngress fmempty\<rparr>"

definition readyCluster :: cluster where
  "readyCluster =
     emptyCluster\<lparr>Ingresses :=
       fmupd (''default'', ''kubernetes-router-a-ingress'')
         (hostIngress\<lparr>LoadBalancer := [''10.0.0.1'']\<rparr>) fmempty\<rparr>"

definition webService :: "string \<Rightarrow> int \<Rightarrow> Service" where
  "webService name port =
     \<lparr>svc_Meta = \<lparr>Name = name, Namespace = ''default'', UID = [], ResourceVersion = [],
                  Labels = Some (fmupd processLabel webProcessName (fmupd appLabel ''test'' fmempty)),
                  Annotations = None, OwnerReferences = []\<rparr>,
      Ports = [port]\<rparr>"

definition plainService :: "string \<Rightarrow> int \<Rightarrow> Service" where
  "plainService name port =
     \<lparr>svc_Meta = \<lparr>Name = name, Namespace = ''default'', UID = [], ResourceVersion = [],
                  Labels = Some (fmupd appLabel ''test'' fmempty),
                  Annotations = None, OwnerReferences = []\<rparr>,
      Ports = [port]\<rparr>"

definition exampleService_v1 :: IngressService_v1 where
  "exampleService_v1 = \<lparr>v1_Namespace = ''default''\<rparr>"

definition createdIngress :: "string \<Rightarrow> Ingress" where
  "createdIngress appName =
     \<lparr>Meta = \<lparr>Name = ingressName_v1 appName, Namespace = ''default'', UID = [],
              ResourceVersion = [], Labels = Some (fmupd appLabel appName fmempty),
              Annotations = None, OwnerReferences = []\<rparr>,
      Spec = \<lparr>Backend = Some \<lparr>ServiceName = appName, ServicePort = FromInt defaultServicePort\<rparr>,
              TLS = None, Rules = None\<rparr>,
      LoadBalancer = []\<rparr>"

definition twoApps :: cluster where
  "twoApps =
     emptyCluster\<lparr>Ingresses :=
       fmupd (''default'', ingressName_v1 ''b'') (createdIngress ''b'')
         (fmupd (''default'', ingressName_v1 ''a'') (createdIngress ''a'') fmempty)\<rparr>"

definition swappedIngress :: "string \<Rightarrow> string \<Rightarrow> string \<Rightarrow> Ingress" where
  "swappedIngress appName backend partner =
     (createdIngress appName)
       \<lparr>Meta := (Meta (createdIngress appName))
                 \<lparr>Labels := Some (fmupd swapLabel partner (fmupd appLabel appName fmempty))\<rparr>,
        Spec := (Spec (createdIngress appName))
                 \<lparr>Backend := Some \<lparr>ServiceName = backend,
                                   ServicePort = FromInt defaultServicePort\<rparr>\<rparr>\<rparr>"

definition swappedApps :: cluster where
  "swappedApps =
     emptyCluster\<lparr>Ingresses :=
       fmupd (''default'', ingressName_v1 ''b'') (swappedIngress ''b'' ''a'' ''a'')
         (fmupd (''default'', ingressName_v1 ''a'') (swappedIngress ''a'' ''b'' ''b'') fmempty)\<rparr>"

definition thirdParty :: cluster where
  "thirdParty =
     emptyCluster\<lparr>Ingresses :=
       fmupd (''default'', ingressName_v1 ''b'') (createdIngress ''b'')
         (fmupd (''default'', ingressName_v1 ''a'') (swappedIngress ''a'' ''a'' ''c'') fmempty),
       pending := [None, None, None, Some (StoreError ''conflict''), None]\<rparr>"

definition failingTwoApps :: "error option \<Rightarrow> cluster" where
  "failingTwoApps rollback =
     twoApps\<lparr>pending := [None, None, None, Some (StoreError ''conflict''), rollback]\<rparr>"

definition twoCerts :: cluster where
  "twoCerts =
     emptyCluster\<lparr>Ingresses :=
       fmupd (''default'', ''kubernetes-router-a-ingress'')
         (hostIngress\<lparr>Spec := (Spec hostIngress)\<lparr>TLS :=
            Some [\<lparr>Hosts = Some [''h.example''], SecretName = ''kr-a-h.example''\<rparr>,
                  \<lparr>Hosts = Some [''h.example''], SecretName = ''kr-a-h.example-2''\<rparr>]\<rparr>\<rparr>)
         fmempty\<rparr>"

definition routeOpts :: RouterOpts where
  "routeOpts = \<lparr>Domain = [], DomainSuffix = [], DomainPrefix = [], Route = ''/'', Acme = False,
                 AdditionalOpts = []\<rparr>"




definition aliases :: "string list \<Rightarrow> bool \<Rightarrow> EnsureBackendOpts" where
  "aliases cnames preserve =
     \<lparr>Opts = routeOpts, Prefixes = [], CNames = cnames, PreserveOldCNames = preserve\<rparr>"

definition oneService :: cluster where
  "oneService = emptyCluster\<lparr>Services := [plainService ''web'' 8888]\<rparr>"

definition legacyIngress :: Ingress where
  "legacyIngress =
     bareIngress\<lparr>Meta := (Meta bareIngress)\<lparr>Name := ''kubernetes-router-a-ingress''\<rparr>,
                 Spec := (Spec bareIngress)\<lparr>Backend :=
                   Some \<lparr>ServiceName = ''a'', ServicePort = FromInt 8888\<rparr>\<rparr>\<rparr>"

definition legacyCluster :: cluster where
  "legacyCluster =
     oneService\<lparr>Ingresses :=
       fmupd (''default'', ''kubernetes-router-a-ingress'') legacyIngress fmempty\<rparr>"

definition labelledIngress :: Ingress where
  "labelledIngress =
     hostIngress\<lparr>Meta := (Meta hostIngress)
       \<lparr>Name := ''kubernetes-router-a-ingress'',
        Labels := Some (fmupd swapLabel ''b'' (fmupd appLabel ''a'' fmempty))\<rparr>\<rparr>"

definition labelledCluster :: cluster where
  "labelledCluster =
     emptyCluster\<lparr>Ingresses :=
       fmupd (''default'', ''kubernetes-router-a-ingress'') labelledIngress fmempty\<rparr>"

subsection \<open>Observations on the store\<close>

text \<open>
  \<open>upToDate c ns d\<close>: under the name of the desired object \<open>d\<close> the namespace holds an
  object for which the diff check against \<open>d\<close> returns false.
  \<open>noDefaultBackend K c\<close>: no object under a key of \<open>K\<close> has the single default
  backend (\<^verbatim>\<open>Spec.Backend\<close>) of the older style set.
  \<open>touched s optName\<close>: the annotation that the option sets or removes (lines 822-826).
  \<open>optionsApart s ropts\<close>: no two of the options that \<^verbatim>\<open>fillIngressMeta\<close>
  ranges over touch the same annotation.
  \<open>namesApart k iid cnames\<close>: the object names of the siblings of \<open>cnames\<close> differ
  from one alias to another, and from the name of the primary object.
\<close>

definition touched :: "IngressService \<Rightarrow> string \<Rightarrow> string" where
  "touched s optName = TrimSuffix (optLabel s optName) ''-''"

definition optionsApart :: "IngressService \<Rightarrow> RouterOpts \<Rightarrow> bool" where
  "optionsApart s ropts = distinct (map (\<lambda>opt. touched s (fst opt)) (mergedOpts s ropts))"


definition upToDate :: "cluster \<Rightarrow> string \<Rightarrow> Ingress \<Rightarrow> bool" where
  "upToDate c ns d =
     (case fmlookup (Ingresses c) (ns, Name (Meta d)) of
        None \<Rightarrow> False
      | Some existing \<Rightarrow> \<not> ingressHasChanges existing d)"




section \<open>Properties\<close>

subsection \<open>Reading maps and the store\<close>

lemma range_all_iff:
  "range_all P m \<longleftrightarrow> (\<forall>key value. lookup_ok m key = Some value \<longrightarrow> P key value)"
  by (auto simp: range_all_def lookup_ok_def fmpred_iff split: option.splits)

lemma index_extra:
  "key \<noteq> extra \<Longrightarrow>
     index (Some (fmupd extra v (case m of None \<Rightarrow> fmempty | Some f \<Rightarrow> f))) key = index m key"
  by (simp add: index_def lookup_ok_def split: option.splits)

lemma label_consts: "appLabel \<noteq> processLabel" "appLabel \<noteq> swapLabel" "processLabel \<noteq> swapLabel"
  by (simp_all add: appLabel_def processLabel_def swapLabel_def)

lemma serve_nil: "pending c = [] \<Longrightarrow> serve c = (None, c)"
  by (simp add: serve_def)

lemma getAppNamespace_nil:
  "pending c = [] \<Longrightarrow> getAppNamespace k appName c = (r, c') \<Longrightarrow> c' = c"
  by (auto simp: getAppNamespace_def serve_nil split: option.splits)

lemma Ingresses_Get_Inr:
  "Ingresses_Get ns name c = (Inr i, c1) \<Longrightarrow>
     fmlookup (Ingresses c) (ns, name) = Some i \<and> c1 = c\<lparr>pending := tl (pending c)\<rparr>"
  by (cases "pending c") (auto simp: Ingresses_Get_def serve_def split: option.splits)

lemma Ingresses_Get_same:
  "Ingresses_Get ns name c = (r, c1) \<Longrightarrow> c1 = c\<lparr>pending := tl (pending c)\<rparr>"
  by (cases "pending c") (auto simp: Ingresses_Get_def serve_def split: option.splits)

lemma Ingresses_Update_None:
  "Ingresses_Update ns i c = (None, c1) \<Longrightarrow>
     c1 = c\<lparr>Ingresses := fmupd (ns, Name (Meta i)) i (Ingresses c),
            requests := requests c @ [UpdateIngress ns (Name (Meta i))],
            pending := tl (pending c)\<rparr>"
  by (cases "pending c") (auto simp: Ingresses_Update_def serve_def logged_def split: option.splits)

subsection \<open>The diff check\<close>

lemma ingressHasChanges_iff:
  "ingressHasChanges existing ing = False \<longleftrightarrow>
      Spec existing = Spec ing \<and>
      (\<forall>key value. lookup_ok (Annotations (Meta ing)) key = Some value \<longrightarrow>
         index (Annotations (Meta existing)) key = value) \<and>
      (\<forall>key value. lookup_ok (Labels (Meta ing)) key = Some value \<longrightarrow>
         index (Labels (Meta existing)) key = value)"
  by (auto simp: ingressHasChanges_def range_all_iff)

text \<open>
  Claim C1, as amended. \<open>ingressHasChanges existing ing\<close> is false if and only if the two
  specs are equal and, for every key of the desired annotations and of the desired labels, the
  value that \<open>existing\<close> gives for the key is the desired one, where a key that
  \<open>existing\<close> lacks reads as the empty string. An annotation or a label that only
  \<open>existing\<close> has does not change the result.
\<close>

theorem ingressHasChanges_desired_subset:
  "(ingressHasChanges existing ing = False \<longleftrightarrow>
      Spec existing = Spec ing \<and>
      (\<forall>key value. lookup_ok (Annotations (Meta ing)) key = Some value \<longrightarrow>
         index (Annotations (Meta existing)) key = value) \<and>
      (\<forall>key value. lookup_ok (Labels (Meta ing)) key = Some value \<longrightarrow>
         index (Labels (Meta existing)) key = value))
   \<and> (lookup_ok (Annotations (Meta ing)) extra = None \<longrightarrow>
        ingressHasChanges
          (existing\<lparr>Meta := (Meta existing)\<lparr>Annotations :=
             Some (fmupd extra v (case Annotations (Meta existing) of
                                   None \<Rightarrow> fmempty | Some f \<Rightarrow> f))\<rparr>\<rparr>) ing
        = ingressHasChanges existing ing)
   \<and> (lookup_ok (Labels (Meta ing)) extra = None \<longrightarrow>
        ingressHasChanges
          (existing\<lparr>Meta := (Meta existing)\<lparr>Labels :=
             Some (fmupd extra v (case Labels (Meta existing) of
                                   None \<Rightarrow> fmempty | Some f \<Rightarrow> f))\<rparr>\<rparr>) ing
        = ingressHasChanges existing ing)"
proof (intro conjI impI)
  show "ingressHasChanges existing ing = False \<longleftrightarrow>
      Spec existing = Spec ing \<and>
      (\<forall>key value. lookup_ok (Annotations (Meta ing)) key = Some value \<longrightarrow>
         index (Annotations (Meta existing)) key = value) \<and>
      (\<forall>key value. lookup_ok (Labels (Meta ing)) key = Some value \<longrightarrow>
         index (Labels (Meta existing)) key = value)"
    by (rule ingressHasChanges_iff)
next
  let ?e = "existing\<lparr>Meta := (Meta existing)\<lparr>Annotations :=
             Some (fmupd extra v (case Annotations (Meta existing) of
                                   None \<Rightarrow> fmempty | Some f \<Rightarrow> f))\<rparr>\<rparr>"
  assume "lookup_ok (Annotations (Meta ing)) extra = None"
  then have neq: "\<And>key value. lookup_ok (Annotations (Meta ing)) key = Some value \<Longrightarrow> key \<noteq> extra"
    by auto
  have "ingressHasChanges ?e ing = False \<longleftrightarrow> ingressHasChanges existing ing = False"
    unfolding ingressHasChanges_iff using neq by (auto simp: index_extra)
  then show "ingressHasChanges ?e ing = ingressHasChanges existing ing"
    by auto
next
  let ?e = "existing\<lparr>Meta := (Meta existing)\<lparr>Labels :=
             Some (fmupd extra v (case Labels (Meta existing) of
                                   None \<Rightarrow> fmempty | Some f \<Rightarrow> f))\<rparr>\<rparr>"
  assume "lookup_ok (Labels (Meta ing)) extra = None"
  then have neq: "\<And>key value. lookup_ok (Labels (Meta ing)) key = Some value \<Longrightarrow> key \<noteq> extra"
    by auto
  have "ingressHasChanges ?e ing = False \<longleftrightarrow> ingressHasChanges existing ing = False"
    unfolding ingressHasChanges_iff using neq by (auto simp: index_extra)
  then show "ingressHasChanges ?e ing = ingressHasChanges existing ing"
    by auto
qed

text \<open>
  At a desired annotation \<open>a\<close> that \<open>existing\<close> has with the same value, next to a stray
  annotation that only \<open>existing\<close> has, there is no change.
\<close>

theorem ingressHasChanges_desired_subset_witness:
  "ingressHasChanges
     (bareIngress\<lparr>Meta := (Meta bareIngress)\<lparr>Annotations :=
        Some (fmupd ''a'' ''1'' (fmupd ''stray'' ''x'' fmempty))\<rparr>\<rparr>)
     (bareIngress\<lparr>Meta := (Meta bareIngress)\<lparr>Annotations := Some (fmupd ''a'' ''1'' fmempty)\<rparr>\<rparr>)
   = False"
  using ingressHasChanges_desired_subset
    [of "bareIngress\<lparr>Meta := (Meta bareIngress)\<lparr>Annotations :=
           Some (fmupd ''a'' ''1'' (fmupd ''stray'' ''x'' fmempty))\<rparr>\<rparr>"
        "bareIngress\<lparr>Meta := (Meta bareIngress)\<lparr>Annotations := Some (fmupd ''a'' ''1'' fmempty)\<rparr>\<rparr>"]
  by (simp add: bareIngress_def index_def lookup_ok_def)

text \<open>
  The claim as it stands fails where a desired annotation has the empty string as its value and
  \<open>existing\<close> lacks the key: the check returns false although \<open>existing\<close> does not
  have the key.
\<close>

theorem ingressHasChanges_empty_value:
  "ingressHasChanges bareIngress
     (bareIngress\<lparr>Meta := (Meta bareIngress)\<lparr>Annotations := Some (fmupd ''class'' [] fmempty)\<rparr>\<rparr>)
     = False
   \<and> lookup_ok (Annotations (Meta
        (bareIngress\<lparr>Meta := (Meta bareIngress)\<lparr>Annotations := Some (fmupd ''class'' [] fmempty)\<rparr>\<rparr>)))
        ''class'' = Some []
   \<and> lookup_ok (Annotations (Meta bareIngress)) ''class'' = None"
  by (simp add: ingressHasChanges_def range_all_iff bareIngress_def index_def lookup_ok_def)

subsection \<open>Status and addresses\<close>

lemma get_notReady:
  "get exampleService app1 notReadyCluster = (Inr hostIngress, notReadyCluster)"
  by (simp add: get_def getAppNamespace_def serve_def Ingresses_Get_def notReadyCluster_def
        emptyCluster_def exampleService_def app1_def ingressName_def)

lemma exampleService_status:
  "getStatusForRuntimeObject exampleService ns kind uid = Inl (StoreError ''events'')"
  by (simp add: exampleService_def)

text \<open>
  Claim C9, as amended. For the object that \<open>get\<close> returns, \<open>GetStatus\<close> reports ready
  exactly when the load-balancer list is not empty and its first address is not empty. When the
  object is not ready, an error of \<open>getStatusForRuntimeObject\<close> is returned to the caller,
  with not-ready and an empty detail; when the helper succeeds, its detail is returned with
  not-ready and no error.
\<close>

theorem GetStatus_ready:
  assumes "get k iid c = (Inr ingress, c1)"
  shows "(fst (fst (GetStatus k iid c)) = BackendStatusReady \<longleftrightarrow>
            LoadBalancer ingress \<noteq> [] \<and> hd (LoadBalancer ingress) \<noteq> [])
       \<and> (\<not> (LoadBalancer ingress \<noteq> [] \<and> hd (LoadBalancer ingress) \<noteq> []) \<longrightarrow>
            getStatusForRuntimeObject k (Namespace (Meta ingress)) ''Ingress'' (UID (Meta ingress))
              = Inl err \<longrightarrow>
            GetStatus k iid c = ((BackendStatusNotReady, [], Some err), c1))
       \<and> (\<not> (LoadBalancer ingress \<noteq> [] \<and> hd (LoadBalancer ingress) \<noteq> []) \<longrightarrow>
            getStatusForRuntimeObject k (Namespace (Meta ingress)) ''Ingress'' (UID (Meta ingress))
              = Inr detail \<longrightarrow>
            GetStatus k iid c = ((BackendStatusNotReady, detail, None), c1))"
  using assms by (auto simp: GetStatus_def isIngressReady_def split: sum.splits)

theorem GetStatus_ready_witness:
  "GetStatus exampleService app1 notReadyCluster
       = ((BackendStatusNotReady, [], Some (StoreError ''events'')), notReadyCluster)"
  using GetStatus_ready [OF get_notReady, of "StoreError ''events''"]
  by (simp add: hostIngress_def bareIngress_def exampleService_status)

text \<open>
  The claim as it stands fails: the object exists and is not ready, the fetch of the detail
  fails, and the call returns that error.
\<close>

theorem GetStatus_detail_error:
  "getStatusForRuntimeObject exampleService ''default'' ''Ingress'' ''u1'' = Inl (StoreError ''events'')
   \<and> GetStatus exampleService app1 notReadyCluster
       = ((BackendStatusNotReady, [], Some (StoreError ''events'')), notReadyCluster)"
  by (simp add: GetStatus_def get_notReady isIngressReady_def hostIngress_def bareIngress_def
        exampleService_status)

text \<open>
  Claim C10, as amended. On a store that serves every call: when the namespace of the
  application holds no primary object, \<open>GetAddresses\<close> returns the list of the one
  empty string and no error; when it holds one that has a rule, the result is the list of the
  host of its first rule, whatever the load-balancer status of the object is; when it holds one
  without a rule, the index \<^verbatim>\<open>Spec.Rules[0]\<close> (line 599) panics.
\<close>

theorem GetAddresses_host:
  assumes "pending c = []" and "getAppNamespace k (AppName iid) c = (Inr ns, c')"
  shows "(fmlookup (Ingresses c) (ns, ingressName k iid) = None \<longrightarrow>
            GetAddresses k iid c = (Inr [[]], c))
       \<and> (fmlookup (Ingresses c) (ns, ingressName k iid) = Some ingress
            \<and> Rules (Spec ingress) = Some (rule # rules) \<longrightarrow>
            GetAddresses k iid c = (Inr [Host rule], c))
       \<and> (fmlookup (Ingresses c) (ns, ingressName k iid) = Some ingress
            \<and> len (Rules (Spec ingress)) = 0 \<longrightarrow>
            GetAddresses k iid c = (Inl Panic, c))"
proof -
  from assms have "c' = c" by (rule getAppNamespace_nil)
  with assms show ?thesis
    by (auto simp: GetAddresses_def get_def Ingresses_Get_def serve_nil elems_def len_def
          split: option.splits)
qed

theorem GetAddresses_host_witness:
  "GetAddresses exampleService app1 emptyCluster = (Inr [[]], emptyCluster)
   \<and> GetAddresses exampleService app1 readyCluster = (Inr [''a.cloud''], readyCluster)"
  using GetAddresses_host [of emptyCluster exampleService app1 "''default''" emptyCluster]
    GetAddresses_host [of readyCluster exampleService app1 "''default''" readyCluster
      "hostIngress\<lparr>LoadBalancer := [''10.0.0.1'']\<rparr>" "\<lparr>Host = ''a.cloud'', HTTP = None\<rparr>" "[]"]
  by (simp add: emptyCluster_def readyCluster_def exampleService_def app1_def hostIngress_def
       bareIngress_def getAppNamespace_def serve_def ingressName_def)

text \<open>
  The claim as it stands fails on a primary object without rules, as an object of the older
  style with a default backend only: the object exists and \<open>GetAddresses\<close> panics.
\<close>

theorem GetAddresses_no_rule:
  "fmlookup (Ingresses legacyCluster) (''default'', ingressName exampleService app1)
     = Some legacyIngress
   \<and> Rules (Spec legacyIngress) = None
   \<and> GetAddresses exampleService app1 legacyCluster = (Inl Panic, legacyCluster)"
  by (simp add: GetAddresses_def get_def getAppNamespace_def serve_def Ingresses_Get_def
        legacyCluster_def oneService_def emptyCluster_def legacyIngress_def bareIngress_def
        exampleService_def app1_def ingressName_def elems_def)

subsection \<open>The choice of the backend service\<close>

lemma Update_service_first:
  assumes "length (pre @ s # post) > 1"
    and "\<forall>p \<in> set pre. index (Labels (svc_Meta p)) processLabel \<noteq> webProcessName"
    and "index (Labels (svc_Meta s)) processLabel = webProcessName"
  shows "Update_service appName (pre @ s # post) = Inr s"
proof -
  have "find (\<lambda>s. index (Labels (svc_Meta s)) processLabel = webProcessName) (pre @ s # post) = Some s"
    using assms(2,3) by (induction pre) auto
  with assms(1) show ?thesis by (simp add: Update_service_def)
qed

lemma web_label [simp]:
  "index (Labels (svc_Meta (webService name port))) processLabel = webProcessName"
  "index (Labels (svc_Meta (plainService name port))) processLabel \<noteq> webProcessName"
  using label_consts
  by (simp_all add: webService_def plainService_def index_def lookup_ok_def webProcessName_def)

text \<open>
  Claim C6, as amended. With no listed service the choice fails with
  \<open>ErrNoService appName []\<close>; with one, that one is chosen; with more than one, the first
  listed service that carries the web-process label is chosen, whether or not a later one
  carries it too, and the choice fails with \<open>ErrNoService appName webProcessName\<close> when none
  carries it. \<open>Update\<close> returns the error of the choice.
\<close>

theorem Update_service_tie_break:
  "Update_service appName [] = Inl (ErrNoService appName [])
   \<and> Update_service appName [s] = Inr s
   \<and> (length items > 1
        \<and> (\<forall>p \<in> set items. index (Labels (svc_Meta p)) processLabel \<noteq> webProcessName) \<longrightarrow>
        Update_service appName items = Inl (ErrNoService appName webProcessName))
   \<and> (length (pre @ w # post) > 1
        \<and> (\<forall>p \<in> set pre. index (Labels (svc_Meta p)) processLabel \<noteq> webProcessName)
        \<and> index (Labels (svc_Meta w)) processLabel = webProcessName \<longrightarrow>
        Update_service appName (pre @ w # post) = Inr w)
   \<and> (Services_List (v1_Namespace k) appLabel appName c = (Inr items, c1)
        \<and> Update_service appName items = Inl err \<longrightarrow>
        Update k appName c = (Some err, c1))"
proof (intro conjI impI)
  show "Update_service appName [] = Inl (ErrNoService appName [])"
    by (simp add: Update_service_def)
  show "Update_service appName [s] = Inr s"
    by (simp add: Update_service_def)
next
  assume a: "length items > 1
     \<and> (\<forall>p \<in> set items. index (Labels (svc_Meta p)) processLabel \<noteq> webProcessName)"
  then have "find (\<lambda>s. index (Labels (svc_Meta s)) processLabel = webProcessName) items = None"
    by (simp add: find_None_iff)
  with a show "Update_service appName items = Inl (ErrNoService appName webProcessName)"
    by (auto simp: Update_service_def)
next
  assume "length (pre @ w # post) > 1
        \<and> (\<forall>p \<in> set pre. index (Labels (svc_Meta p)) processLabel \<noteq> webProcessName)
        \<and> index (Labels (svc_Meta w)) processLabel = webProcessName"
  then show "Update_service appName (pre @ w # post) = Inr w"
    by (simp add: Update_service_first)
next
  assume "Services_List (v1_Namespace k) appLabel appName c = (Inr items, c1)
        \<and> Update_service appName items = Inl err"
  then show "Update k appName c = (Some err, c1)"
    by (simp add: Update_def)
qed

theorem Update_service_tie_break_witness:
  "Update_service ''test'' [plainService ''test-single'' 8899, plainService ''test-other'' 8898]
     = Inl (ErrNoService ''test'' webProcessName)
   \<and> Update_service ''test'' [plainService ''test-single'' 8899, webService ''test-web'' 8890]
     = Inr (webService ''test-web'' 8890)"
  using Update_service_tie_break [of "''test''" "plainService ''test-single'' 8899"
      "[plainService ''test-single'' 8899, plainService ''test-other'' 8898]"
      "[plainService ''test-single'' 8899]" "webService ''test-web'' 8890" "[]"]
  by simp

text \<open>
  The claim as it stands fails: of two listed services that both carry the web-process label,
  the first is chosen and no error is returned.
\<close>

theorem Update_service_two_web:
  "Update_service ''test'' [webService ''test-web'' 8890, webService ''test-web2'' 8891]
     = Inr (webService ''test-web'' 8890)"
  by (simp add: Update_service_def)

subsection \<open>The exchange of two backends\<close>

lemma Swap_None:
  assumes "Swap k srcApp dstApp c = (None, c4)"
  shows "\<exists>src dst src1 dst1 c1 c2 c3.
           get_v1 k srcApp c = (Inr src, c1) \<and> get_v1 k dstApp c1 = (Inr dst, c2)
         \<and> swap src dst = Inr (src1, dst1)
         \<and> Ingresses_Update (v1_Namespace k) src1 c2 = (None, c3)
         \<and> Ingresses_Update (v1_Namespace k) dst1 c3 = (None, c4)"
  using assms unfolding Swap_def
  by (auto split: prod.splits sum.splits option.splits)

lemma swap_Inr:
  assumes "swap s d = Inr (s1, d1)"
  shows "\<exists>sb db. Backend (Spec s) = Some sb \<and> Backend (Spec d) = Some db
       \<and> s1 = s\<lparr>Spec := (Spec s)\<lparr>Backend := Some (sb\<lparr>ServiceName := ServiceName db, ServicePort := ServicePort db\<rparr>)\<rparr>,
               Meta := (Meta s)\<lparr>Labels := Labels (Meta s1)\<rparr>\<rparr>
       \<and> d1 = d\<lparr>Spec := (Spec d)\<lparr>Backend := Some (db\<lparr>ServiceName := ServiceName sb, ServicePort := ServicePort sb\<rparr>)\<rparr>,
               Meta := (Meta d)\<lparr>Labels := Labels (Meta d1)\<rparr>\<rparr>
       \<and> (if index (Labels (Meta s)) swapLabel = index (Labels (Meta d)) appLabel
          then Labels (Meta s1) = delete (Labels (Meta s)) swapLabel
             \<and> Labels (Meta d1) = delete (Labels (Meta d)) swapLabel
          else (\<exists>ls ld. Labels (Meta s) = Some ls \<and> Labels (Meta d) = Some ld
             \<and> Labels (Meta s1) = Some (fmupd swapLabel (index (Some ld) appLabel) ls)
             \<and> Labels (Meta d1) = Some (fmupd swapLabel (index (Some ls) appLabel) ld)))"
proof -
  obtain sb db where b: "Backend (Spec s) = Some sb" "Backend (Spec d) = Some db"
    using assms by (auto simp: swap_def split: option.splits)
  show ?thesis
  proof (cases "index (Labels (Meta s)) swapLabel = index (Labels (Meta d)) appLabel")
    case True
    with assms b have "s1 = s\<lparr>Spec := (Spec s)\<lparr>Backend := Some (sb\<lparr>ServiceName := ServiceName db, ServicePort := ServicePort db\<rparr>)\<rparr>,
               Meta := (Meta s)\<lparr>Labels := delete (Labels (Meta s)) swapLabel\<rparr>\<rparr>"
      and "d1 = d\<lparr>Spec := (Spec d)\<lparr>Backend := Some (db\<lparr>ServiceName := ServiceName sb, ServicePort := ServicePort sb\<rparr>)\<rparr>,
               Meta := (Meta d)\<lparr>Labels := delete (Labels (Meta d)) swapLabel\<rparr>\<rparr>"
      by (simp_all add: swap_def Let_def)
    with b True show ?thesis by simp
  next
    case False
    with assms b obtain ls ld where l: "Labels (Meta s) = Some ls" "Labels (Meta d) = Some ld"
      by (cases "Labels (Meta s)"; cases "Labels (Meta d)") (simp_all add: swap_def Let_def assign_def)
    have app: "index (Some (fmupd swapLabel v ls)) appLabel = index (Some ls) appLabel" for v
      using label_consts(2) by (simp add: index_def lookup_ok_def)
    from assms b False l have "s1 = s\<lparr>Spec := (Spec s)\<lparr>Backend := Some (sb\<lparr>ServiceName := ServiceName db, ServicePort := ServicePort db\<rparr>)\<rparr>,
               Meta := (Meta s)\<lparr>Labels := Some (fmupd swapLabel (index (Some ld) appLabel) ls)\<rparr>\<rparr>"
      and "d1 = d\<lparr>Spec := (Spec d)\<lparr>Backend := Some (db\<lparr>ServiceName := ServiceName sb, ServicePort := ServicePort sb\<rparr>)\<rparr>,
               Meta := (Meta d)\<lparr>Labels := Some (fmupd swapLabel (index (Some ls) appLabel) ld)\<rparr>\<rparr>"
      by (simp_all add: swap_def Let_def assign_def app)
    with b False l show ?thesis by simp
  qed
qed


lemma index_delete:
  "index (delete m k) k = []" "k' \<noteq> k \<Longrightarrow> index (delete m k) k' = index m k'"
  by (simp_all add: index_def delete_def lookup_ok_def split: option.splits)

lemma index_fmupd:
  "index (Some (fmupd k v f)) k = v" "k' \<noteq> k \<Longrightarrow> index (Some (fmupd k v f)) k' = index (Some f) k'"
  by (simp_all add: index_def lookup_ok_def)

lemma lookup_ok_delete: "lookup_ok (delete m k) k = None"
  by (simp add: lookup_ok_def delete_def split: option.splits)

lemma delete_absent: "lookup_ok m k = None \<Longrightarrow> delete m k = m"
  by (auto simp: lookup_ok_def delete_def fmdrop_idle' fmdom'_notI split: option.splits)

lemma delete_fmupd: "delete (Some (fmupd k v f)) k = delete (Some f) k"
  by (simp add: delete_def fmdrop_fmupd_same)

lemma fmupd_fmdrop_same: "fmlookup f k = Some v \<Longrightarrow> fmupd k v (fmdrop k f) = f"
  by (rule fmap_ext) auto

text \<open>Two exchanges in a row: everything but the labels is as before.\<close>

lemma swap_swap:
  assumes 1: "swap s d = Inr (s1, d1)" and 2: "swap s1 d1 = Inr (s2, d2)"
  shows "s2 = s\<lparr>Meta := (Meta s)\<lparr>Labels := Labels (Meta s2)\<rparr>\<rparr>"
    and "d2 = d\<lparr>Meta := (Meta d)\<lparr>Labels := Labels (Meta d2)\<rparr>\<rparr>"
    and "index (Labels (Meta s)) swapLabel \<noteq> index (Labels (Meta d)) appLabel
           \<or> index (Labels (Meta d)) appLabel = [] \<Longrightarrow>
         Labels (Meta s2) = delete (Labels (Meta s)) swapLabel
         \<and> Labels (Meta d2) = delete (Labels (Meta d)) swapLabel"
    and "index (Labels (Meta s)) swapLabel = index (Labels (Meta d)) appLabel
           \<and> index (Labels (Meta d)) appLabel \<noteq> [] \<Longrightarrow>
         \<exists>ls ld. Labels (Meta s) = Some ls \<and> Labels (Meta d) = Some ld
           \<and> Labels (Meta s2) = Some (fmupd swapLabel (index (Some ld) appLabel) (fmdrop swapLabel ls))
           \<and> Labels (Meta d2) = Some (fmupd swapLabel (index (Some ls) appLabel) (fmdrop swapLabel ld))"
proof -
  from swap_Inr [OF 1] obtain sb db where
    b: "Backend (Spec s) = Some sb" "Backend (Spec d) = Some db"
    and s1: "s1 = s\<lparr>Spec := (Spec s)\<lparr>Backend := Some (sb\<lparr>ServiceName := ServiceName db, ServicePort := ServicePort db\<rparr>)\<rparr>,
               Meta := (Meta s)\<lparr>Labels := Labels (Meta s1)\<rparr>\<rparr>"
    and d1: "d1 = d\<lparr>Spec := (Spec d)\<lparr>Backend := Some (db\<lparr>ServiceName := ServiceName sb, ServicePort := ServicePort sb\<rparr>)\<rparr>,
               Meta := (Meta d)\<lparr>Labels := Labels (Meta d1)\<rparr>\<rparr>"
    and l1: "if index (Labels (Meta s)) swapLabel = index (Labels (Meta d)) appLabel
          then Labels (Meta s1) = delete (Labels (Meta s)) swapLabel
             \<and> Labels (Meta d1) = delete (Labels (Meta d)) swapLabel
          else (\<exists>ls ld. Labels (Meta s) = Some ls \<and> Labels (Meta d) = Some ld
             \<and> Labels (Meta s1) = Some (fmupd swapLabel (index (Some ld) appLabel) ls)
             \<and> Labels (Meta d1) = Some (fmupd swapLabel (index (Some ls) appLabel) ld))"
    by blast
  have bs1: "Backend (Spec s1) = Some (sb\<lparr>ServiceName := ServiceName db, ServicePort := ServicePort db\<rparr>)"
    by (subst s1) simp
  have bd1: "Backend (Spec d1) = Some (db\<lparr>ServiceName := ServiceName sb, ServicePort := ServicePort sb\<rparr>)"
    by (subst d1) simp
  from swap_Inr [OF 2] bs1 bd1 have
    s2: "s2 = s1\<lparr>Spec := (Spec s1)\<lparr>Backend := Some sb\<rparr>, Meta := (Meta s1)\<lparr>Labels := Labels (Meta s2)\<rparr>\<rparr>"
    and d2: "d2 = d1\<lparr>Spec := (Spec d1)\<lparr>Backend := Some db\<rparr>, Meta := (Meta d1)\<lparr>Labels := Labels (Meta d2)\<rparr>\<rparr>"
    and l2: "if index (Labels (Meta s1)) swapLabel = index (Labels (Meta d1)) appLabel
          then Labels (Meta s2) = delete (Labels (Meta s1)) swapLabel
             \<and> Labels (Meta d2) = delete (Labels (Meta d1)) swapLabel
          else (\<exists>ls ld. Labels (Meta s1) = Some ls \<and> Labels (Meta d1) = Some ld
             \<and> Labels (Meta s2) = Some (fmupd swapLabel (index (Some ld) appLabel) ls)
             \<and> Labels (Meta d2) = Some (fmupd swapLabel (index (Some ls) appLabel) ld))"
    by auto
  show "s2 = s\<lparr>Meta := (Meta s)\<lparr>Labels := Labels (Meta s2)\<rparr>\<rparr>"
    by (subst s2, subst s1, subst (2) s1, subst (3) s1) (simp add: b)
  show "d2 = d\<lparr>Meta := (Meta d)\<lparr>Labels := Labels (Meta d2)\<rparr>\<rparr>"
    by (subst d2, subst d1, subst (2) d1, subst (3) d1) (simp add: b)
  have neq: "appLabel \<noteq> swapLabel" by (rule label_consts)
  {
    assume c: "index (Labels (Meta s)) swapLabel \<noteq> index (Labels (Meta d)) appLabel
           \<or> index (Labels (Meta d)) appLabel = []"
    show "Labels (Meta s2) = delete (Labels (Meta s)) swapLabel
         \<and> Labels (Meta d2) = delete (Labels (Meta d)) swapLabel"
    proof (cases "index (Labels (Meta s)) swapLabel = index (Labels (Meta d)) appLabel")
      case True
      with c have e: "index (Labels (Meta d)) appLabel = []" by simp
      from True l1 have l: "Labels (Meta s1) = delete (Labels (Meta s)) swapLabel"
         "Labels (Meta d1) = delete (Labels (Meta d)) swapLabel" by simp_all
      with l2 e neq show ?thesis
        by (simp add: index_delete delete_absent lookup_ok_delete)
    next
      case False
      with l1 obtain ls ld where l: "Labels (Meta s) = Some ls" "Labels (Meta d) = Some ld"
        "Labels (Meta s1) = Some (fmupd swapLabel (index (Some ld) appLabel) ls)"
        "Labels (Meta d1) = Some (fmupd swapLabel (index (Some ls) appLabel) ld)"
        by auto
      with l2 neq show ?thesis
        by (simp add: index_fmupd delete_fmupd)
    qed
  }
  {
    assume c: "index (Labels (Meta s)) swapLabel = index (Labels (Meta d)) appLabel
           \<and> index (Labels (Meta d)) appLabel \<noteq> []"
    with l1 have l: "Labels (Meta s1) = delete (Labels (Meta s)) swapLabel"
         "Labels (Meta d1) = delete (Labels (Meta d)) swapLabel" by simp_all
    with l2 c neq obtain ls1 ld1 where m:
       "delete (Labels (Meta s)) swapLabel = Some ls1" "delete (Labels (Meta d)) swapLabel = Some ld1"
       "Labels (Meta s2) = Some (fmupd swapLabel (index (Some ld1) appLabel) ls1)"
       "Labels (Meta d2) = Some (fmupd swapLabel (index (Some ls1) appLabel) ld1)"
      by (auto simp: index_delete)
    then obtain ls ld where n: "Labels (Meta s) = Some ls" "Labels (Meta d) = Some ld"
       "ls1 = fmdrop swapLabel ls" "ld1 = fmdrop swapLabel ld"
      by (auto simp: delete_def split: option.splits)
    have "index (Some (fmdrop swapLabel f)) appLabel = index (Some f) appLabel" for f
      using neq by (simp add: index_def lookup_ok_def)
    with m n show "\<exists>ls ld. Labels (Meta s) = Some ls \<and> Labels (Meta d) = Some ld
           \<and> Labels (Meta s2) = Some (fmupd swapLabel (index (Some ld) appLabel) (fmdrop swapLabel ls))
           \<and> Labels (Meta d2) = Some (fmupd swapLabel (index (Some ls) appLabel) (fmdrop swapLabel ld))"
      by simp
  }
qed

lemma swap_same:
  assumes "swap s s = Inr (s1, d1)"
  shows "s1 = d1"
proof -
  from swap_Inr [OF assms] obtain sb where
    "Backend (Spec s) = Some sb"
    and s1: "s1 = s\<lparr>Spec := (Spec s)\<lparr>Backend := Some (sb\<lparr>ServiceName := ServiceName sb, ServicePort := ServicePort sb\<rparr>)\<rparr>,
               Meta := (Meta s)\<lparr>Labels := Labels (Meta s1)\<rparr>\<rparr>"
    and d1: "d1 = s\<lparr>Spec := (Spec s)\<lparr>Backend := Some (sb\<lparr>ServiceName := ServiceName sb, ServicePort := ServicePort sb\<rparr>)\<rparr>,
               Meta := (Meta s)\<lparr>Labels := Labels (Meta d1)\<rparr>\<rparr>"
    and l: "if index (Labels (Meta s)) swapLabel = index (Labels (Meta s)) appLabel
          then Labels (Meta s1) = delete (Labels (Meta s)) swapLabel
             \<and> Labels (Meta d1) = delete (Labels (Meta s)) swapLabel
          else (\<exists>ls ld. Labels (Meta s) = Some ls \<and> Labels (Meta s) = Some ld
             \<and> Labels (Meta s1) = Some (fmupd swapLabel (index (Some ld) appLabel) ls)
             \<and> Labels (Meta d1) = Some (fmupd swapLabel (index (Some ls) appLabel) ld))"
    by auto
  from l have "Labels (Meta s1) = Labels (Meta d1)"
    by (auto split: if_splits)
  with s1 d1 show ?thesis by metis
qed

lemma swap_again:
  assumes "swap s d = Inr (s1, d1)"
  shows "\<exists>s2 d2. swap s1 d1 = Inr (s2, d2)"
proof -
  from swap_Inr [OF assms] obtain sb db where
    s1: "s1 = s\<lparr>Spec := (Spec s)\<lparr>Backend := Some (sb\<lparr>ServiceName := ServiceName db, ServicePort := ServicePort db\<rparr>)\<rparr>,
               Meta := (Meta s)\<lparr>Labels := Labels (Meta s1)\<rparr>\<rparr>"
    and d1: "d1 = d\<lparr>Spec := (Spec d)\<lparr>Backend := Some (db\<lparr>ServiceName := ServiceName sb, ServicePort := ServicePort sb\<rparr>)\<rparr>,
               Meta := (Meta d)\<lparr>Labels := Labels (Meta d1)\<rparr>\<rparr>"
    and l1: "if index (Labels (Meta s)) swapLabel = index (Labels (Meta d)) appLabel
          then Labels (Meta s1) = delete (Labels (Meta s)) swapLabel
             \<and> Labels (Meta d1) = delete (Labels (Meta d)) swapLabel
          else (\<exists>ls ld. Labels (Meta s) = Some ls \<and> Labels (Meta d) = Some ld
             \<and> Labels (Meta s1) = Some (fmupd swapLabel (index (Some ld) appLabel) ls)
             \<and> Labels (Meta d1) = Some (fmupd swapLabel (index (Some ls) appLabel) ld))"
    by blast
  have bs1: "Backend (Spec s1) \<noteq> None" by (subst s1) simp
  have bd1: "Backend (Spec d1) \<noteq> None" by (subst d1) simp
  have neq: "appLabel \<noteq> swapLabel" by (rule label_consts)
  have "index (Labels (Meta s1)) swapLabel = index (Labels (Meta d1)) appLabel
        \<or> (Labels (Meta s1) \<noteq> None \<and> Labels (Meta d1) \<noteq> None)"
  proof (cases "index (Labels (Meta s)) swapLabel = index (Labels (Meta d)) appLabel")
    case True
    with l1 have l: "Labels (Meta s1) = delete (Labels (Meta s)) swapLabel"
         "Labels (Meta d1) = delete (Labels (Meta d)) swapLabel" by simp_all
    show ?thesis
    proof (cases "Labels (Meta s) = None \<or> Labels (Meta d) = None")
      case True
      with \<open>index (Labels (Meta s)) swapLabel = index (Labels (Meta d)) appLabel\<close> neq
      have "index (Labels (Meta d)) appLabel = []"
        by (auto simp: index_def lookup_ok_def)
      with l neq show ?thesis by (simp add: index_delete)
    next
      case False
      with l show ?thesis by (auto simp: delete_def)
    qed
  next
    case False
    with l1 show ?thesis by auto
  qed
  with bs1 bd1 show ?thesis
    unfolding swap_def Let_def
    by (auto simp: assign_def split: option.splits)
qed

lemma exampleService_v1_ns [simp]: "v1_Namespace exampleService_v1 = ''default''"
  by (simp add: exampleService_v1_def)

lemma swap_Name:
  assumes "swap s d = Inr (s1, d1)"
  shows "Name (Meta s1) = Name (Meta s)" and "Name (Meta d1) = Name (Meta d)"
proof -
  from swap_Inr [OF assms] obtain sb db where
    s1: "s1 = s\<lparr>Spec := (Spec s)\<lparr>Backend := Some (sb\<lparr>ServiceName := ServiceName db, ServicePort := ServicePort db\<rparr>)\<rparr>,
               Meta := (Meta s)\<lparr>Labels := Labels (Meta s1)\<rparr>\<rparr>"
    and d1: "d1 = d\<lparr>Spec := (Spec d)\<lparr>Backend := Some (db\<lparr>ServiceName := ServiceName sb, ServicePort := ServicePort sb\<rparr>)\<rparr>,
               Meta := (Meta d)\<lparr>Labels := Labels (Meta d1)\<rparr>\<rparr>"
    by blast
  show "Name (Meta s1) = Name (Meta s)" by (subst s1) simp
  show "Name (Meta d1) = Name (Meta d)" by (subst d1) simp
qed

lemma Swap_None_store:
  assumes a: "fmlookup (Ingresses c) (v1_Namespace k, ingressName_v1 srcApp) = Some src0"
    and b: "fmlookup (Ingresses c) (v1_Namespace k, ingressName_v1 dstApp) = Some dst0"
    and na: "Name (Meta src0) = ingressName_v1 srcApp"
    and nb: "Name (Meta dst0) = ingressName_v1 dstApp"
    and s: "Swap k srcApp dstApp c = (None, c4)"
  shows "\<exists>src1 dst1. swap src0 dst0 = Inr (src1, dst1)
       \<and> Ingresses c4 = fmupd (v1_Namespace k, ingressName_v1 dstApp) dst1
            (fmupd (v1_Namespace k, ingressName_v1 srcApp) src1 (Ingresses c))"
proof -
  from Swap_None [OF s] obtain src dst src1 dst1 c1 c2 c3 where
    g1: "get_v1 k srcApp c = (Inr src, c1)" and g2: "get_v1 k dstApp c1 = (Inr dst, c2)"
    and sw: "swap src dst = Inr (src1, dst1)"
    and u1: "Ingresses_Update (v1_Namespace k) src1 c2 = (None, c3)"
    and u2: "Ingresses_Update (v1_Namespace k) dst1 c3 = (None, c4)"
    by blast
  from g1 have "fmlookup (Ingresses c) (v1_Namespace k, ingressName_v1 srcApp) = Some src"
    and c1: "c1 = c\<lparr>pending := tl (pending c)\<rparr>"
    unfolding get_v1_def by (auto dest: Ingresses_Get_Inr)
  with a have src: "src = src0" by simp
  from g2 have "fmlookup (Ingresses c1) (v1_Namespace k, ingressName_v1 dstApp) = Some dst"
    and c2: "c2 = c1\<lparr>pending := tl (pending c1)\<rparr>"
    unfolding get_v1_def by (auto dest: Ingresses_Get_Inr)
  with b c1 have dst: "dst = dst0" by simp
  from c1 c2 have i2: "Ingresses c2 = Ingresses c" by simp
  from swap_Name [OF sw] src dst na nb
  have n: "Name (Meta src1) = ingressName_v1 srcApp" "Name (Meta dst1) = ingressName_v1 dstApp"
    by simp_all
  from Ingresses_Update_None [OF u1] n i2
  have i3: "Ingresses c3 = fmupd (v1_Namespace k, ingressName_v1 srcApp) src1 (Ingresses c)"
    by simp
  from Ingresses_Update_None [OF u2] n i3
  have "Ingresses c4 = fmupd (v1_Namespace k, ingressName_v1 dstApp) dst1
            (fmupd (v1_Namespace k, ingressName_v1 srcApp) src1 (Ingresses c))"
    by simp
  with sw src dst show ?thesis by blast
qed

text \<open>
  Claim C4, as amended. Both primary objects exist under their names, and \<open>Swap\<close> is
  run twice in a row, returning no error either time. Then both objects are in the store with
  the backends they had before the first run, and, when the swap label of the source did not
  already name the application of the destination, neither object has a swap label.
\<close>

theorem Swap_twice:
  assumes a: "fmlookup (Ingresses c) (v1_Namespace k, ingressName_v1 srcApp) = Some src0"
    and b: "fmlookup (Ingresses c) (v1_Namespace k, ingressName_v1 dstApp) = Some dst0"
    and na: "Name (Meta src0) = ingressName_v1 srcApp"
    and nb: "Name (Meta dst0) = ingressName_v1 dstApp"
    and s1: "fst (Swap k srcApp dstApp c) = None"
    and s2: "fst (Swap k srcApp dstApp (snd (Swap k srcApp dstApp c))) = None"
  shows "\<exists>src2 dst2.
      fmlookup (Ingresses (snd (Swap k srcApp dstApp (snd (Swap k srcApp dstApp c)))))
        (v1_Namespace k, ingressName_v1 srcApp) = Some src2
    \<and> fmlookup (Ingresses (snd (Swap k srcApp dstApp (snd (Swap k srcApp dstApp c)))))
        (v1_Namespace k, ingressName_v1 dstApp) = Some dst2
    \<and> Backend (Spec src2) = Backend (Spec src0) \<and> Backend (Spec dst2) = Backend (Spec dst0)
    \<and> (index (Labels (Meta src0)) swapLabel \<noteq> index (Labels (Meta dst0)) appLabel \<longrightarrow>
         lookup_ok (Labels (Meta src2)) swapLabel = None
         \<and> lookup_ok (Labels (Meta dst2)) swapLabel = None)"
proof -
  let ?ka = "(v1_Namespace k, ingressName_v1 srcApp)"
  let ?kb = "(v1_Namespace k, ingressName_v1 dstApp)"
  obtain c1 where e1: "Swap k srcApp dstApp c = (None, c1)"
    using s1 by (cases "Swap k srcApp dstApp c") auto
  with s2 obtain c2 where e2: "Swap k srcApp dstApp c1 = (None, c2)"
    by (cases "Swap k srcApp dstApp c1") auto
  from Swap_None_store [OF a b na nb e1] obtain src1 dst1 where
    sw1: "swap src0 dst0 = Inr (src1, dst1)"
    and i1: "Ingresses c1 = fmupd ?kb dst1 (fmupd ?ka src1 (Ingresses c))"
    by blast
  have same1: "?ka = ?kb \<Longrightarrow> src1 = dst1"
    using a b sw1 swap_same by fastforce
  from i1 same1 have a1: "fmlookup (Ingresses c1) ?ka = Some src1"
    and b1: "fmlookup (Ingresses c1) ?kb = Some dst1" by auto
  from swap_Name [OF sw1] na nb
  have n1: "Name (Meta src1) = ingressName_v1 srcApp" "Name (Meta dst1) = ingressName_v1 dstApp"
    by simp_all
  from Swap_None_store [OF a1 b1 n1 e2] obtain src2 dst2 where
    sw2: "swap src1 dst1 = Inr (src2, dst2)"
    and i2: "Ingresses c2 = fmupd ?kb dst2 (fmupd ?ka src2 (Ingresses c1))"
    by blast
  have same2: "?ka = ?kb \<Longrightarrow> src2 = dst2"
    using same1 sw2 swap_same by fastforce
  from i2 same2 have a2: "fmlookup (Ingresses c2) ?ka = Some src2"
    and b2: "fmlookup (Ingresses c2) ?kb = Some dst2" by auto
  from swap_swap(1) [OF sw1 sw2] have "Spec src2 = Spec src0"
    by (metis Ingress.select_convs(2) Ingress.surjective Ingress.update_convs(1))
  moreover from swap_swap(2) [OF sw1 sw2] have "Spec dst2 = Spec dst0"
    by (metis Ingress.select_convs(2) Ingress.surjective Ingress.update_convs(1))
  moreover have "index (Labels (Meta src0)) swapLabel \<noteq> index (Labels (Meta dst0)) appLabel \<longrightarrow>
         lookup_ok (Labels (Meta src2)) swapLabel = None
         \<and> lookup_ok (Labels (Meta dst2)) swapLabel = None"
    using swap_swap(3) [OF sw1 sw2] by (simp add: lookup_ok_delete)
  ultimately show ?thesis
    using a2 b2 e1 e2 by simp
qed

lemma Swap_served:
  assumes "pending c = []"
    and "fmlookup (Ingresses c) (v1_Namespace k, ingressName_v1 srcApp) = Some src0"
    and "fmlookup (Ingresses c) (v1_Namespace k, ingressName_v1 dstApp) = Some dst0"
    and "Name (Meta src0) = ingressName_v1 srcApp"
    and "Name (Meta dst0) = ingressName_v1 dstApp"
    and sw: "swap src0 dst0 = Inr (src1, dst1)"
  shows "Swap k srcApp dstApp c =
           (None, c\<lparr>Ingresses := fmupd (v1_Namespace k, ingressName_v1 dstApp) dst1
                        (fmupd (v1_Namespace k, ingressName_v1 srcApp) src1 (Ingresses c)),
                     requests := requests c @ [UpdateIngress (v1_Namespace k) (ingressName_v1 srcApp),
                                               UpdateIngress (v1_Namespace k) (ingressName_v1 dstApp)]\<rparr>)"
  using assms swap_Name [OF sw]
  by (simp add: Swap_def get_v1_def Ingresses_Get_def Ingresses_Update_def serve_def logged_def)

lemma ingressName_v1_ab [simp]:
  "ingressName_v1 ''a'' \<noteq> ingressName_v1 ''b''" "ingressName_v1 ''b'' \<noteq> ingressName_v1 ''a''"
  by (simp_all add: ingressName_v1_def)

lemma swap_created:
  "swap (createdIngress ''a'') (createdIngress ''b'')
     = Inr (swappedIngress ''a'' ''b'' ''b'', swappedIngress ''b'' ''a'' ''a'')"
  using label_consts
  by (simp add: swap_def createdIngress_def swappedIngress_def Let_def index_def lookup_ok_def
        assign_def)

lemma swap_swapped:
  "swap (swappedIngress ''a'' ''b'' ''b'') (swappedIngress ''b'' ''a'' ''a'')
     = Inr (createdIngress ''a'', createdIngress ''b'')"
  using label_consts
  by (simp add: swap_def createdIngress_def swappedIngress_def Let_def index_def lookup_ok_def
        delete_def fmdrop_fmupd)

lemma Swap_twoApps:
  "Swap exampleService_v1 ''a'' ''b'' twoApps =
     (None, swappedApps\<lparr>requests := [UpdateIngress ''default'' (ingressName_v1 ''a''),
                                     UpdateIngress ''default'' (ingressName_v1 ''b'')]\<rparr>)"
  by (subst Swap_served [OF _ _ _ _ _ swap_created])
     (simp_all add: twoApps_def swappedApps_def emptyCluster_def 
        createdIngress_def fmupd_reorder_neq)

lemma Swap_swappedApps:
  "fst (Swap exampleService_v1 ''a'' ''b'' (swappedApps\<lparr>requests := r\<rparr>)) = None"
  "fmlookup (Ingresses (snd (Swap exampleService_v1 ''a'' ''b'' (swappedApps\<lparr>requests := r\<rparr>))))
     (''default'', ingressName_v1 ''a'') = Some (createdIngress ''a'')"
  "fmlookup (Ingresses (snd (Swap exampleService_v1 ''a'' ''b'' (swappedApps\<lparr>requests := r\<rparr>))))
     (''default'', ingressName_v1 ''b'') = Some (createdIngress ''b'')"
  by (subst Swap_served [OF _ _ _ _ _ swap_swapped];
      simp add: swappedApps_def emptyCluster_def 
        createdIngress_def swappedIngress_def)+

lemma Swap_twoApps_twice:
  "fst (Swap exampleService_v1 ''a'' ''b'' (snd (Swap exampleService_v1 ''a'' ''b'' twoApps))) = None"
  "fmlookup (Ingresses (snd (Swap exampleService_v1 ''a'' ''b''
       (snd (Swap exampleService_v1 ''a'' ''b'' twoApps)))))
     (''default'', ingressName_v1 ''a'') = Some (createdIngress ''a'')"
  "fmlookup (Ingresses (snd (Swap exampleService_v1 ''a'' ''b''
       (snd (Swap exampleService_v1 ''a'' ''b'' twoApps)))))
     (''default'', ingressName_v1 ''b'') = Some (createdIngress ''b'')"
  by (simp_all add: Swap_twoApps Swap_swappedApps)

theorem Swap_twice_witness:
  "fst (Swap exampleService_v1 ''a'' ''b'' twoApps) = None
   \<and> fst (Swap exampleService_v1 ''a'' ''b'' (snd (Swap exampleService_v1 ''a'' ''b'' twoApps))) = None
   \<and> (\<exists>src2 dst2.
        fmlookup (Ingresses (snd (Swap exampleService_v1 ''a'' ''b''
            (snd (Swap exampleService_v1 ''a'' ''b'' twoApps)))))
          (''default'', ingressName_v1 ''a'') = Some src2
      \<and> fmlookup (Ingresses (snd (Swap exampleService_v1 ''a'' ''b''
            (snd (Swap exampleService_v1 ''a'' ''b'' twoApps)))))
          (''default'', ingressName_v1 ''b'') = Some dst2
      \<and> Backend (Spec src2) = Backend (Spec (createdIngress ''a''))
      \<and> Backend (Spec dst2) = Backend (Spec (createdIngress ''b''))
      \<and> lookup_ok (Labels (Meta src2)) swapLabel = None
      \<and> lookup_ok (Labels (Meta dst2)) swapLabel = None)"
proof -
  have a: "fmlookup (Ingresses twoApps) (v1_Namespace exampleService_v1, ingressName_v1 ''a'')
             = Some (createdIngress ''a'')"
    and b: "fmlookup (Ingresses twoApps) (v1_Namespace exampleService_v1, ingressName_v1 ''b'')
             = Some (createdIngress ''b'')"
    by (simp_all add: twoApps_def)
  have n: "Name (Meta (createdIngress ''a'')) = ingressName_v1 ''a''"
      "Name (Meta (createdIngress ''b'')) = ingressName_v1 ''b''"
    by (simp_all add: createdIngress_def)
  have s1: "fst (Swap exampleService_v1 ''a'' ''b'' twoApps) = None"
    by (simp add: Swap_twoApps)
  have l: "index (Labels (Meta (createdIngress ''a''))) swapLabel
             \<noteq> index (Labels (Meta (createdIngress ''b''))) appLabel"
    using label_consts by (simp add: createdIngress_def index_def lookup_ok_def)
  from Swap_twice [OF a b n s1 Swap_twoApps_twice(1)] l s1 Swap_twoApps_twice(1)
  show ?thesis by simp
qed

text \<open>
  The claim as it stands fails for a pair that is swapped already: the first run clears the
  labels, the second sets them again, and the source ends with its swap label.
\<close>

theorem Swap_twice_of_swapped_pair:
  "fst (Swap exampleService_v1 ''a'' ''b'' swappedApps) = None
   \<and> fst (Swap exampleService_v1 ''a'' ''b'' (snd (Swap exampleService_v1 ''a'' ''b'' swappedApps))) = None
   \<and> fmlookup (Ingresses (snd (Swap exampleService_v1 ''a'' ''b''
          (snd (Swap exampleService_v1 ''a'' ''b'' swappedApps)))))
        (''default'', ingressName_v1 ''a'') = Some (swappedIngress ''a'' ''b'' ''b'')
   \<and> lookup_ok (Labels (Meta (swappedIngress ''a'' ''b'' ''b''))) swapLabel = Some ''b''"
proof -
  have e: "swappedApps = swappedApps\<lparr>requests := []\<rparr>"
    by (simp add: swappedApps_def emptyCluster_def)
  have 1: "Swap exampleService_v1 ''a'' ''b'' swappedApps =
     (None, twoApps\<lparr>Ingresses :=
         fmupd (''default'', ingressName_v1 ''b'') (createdIngress ''b'')
           (fmupd (''default'', ingressName_v1 ''a'') (createdIngress ''a'') (Ingresses swappedApps)),
       requests := [UpdateIngress ''default'' (ingressName_v1 ''a''),
                    UpdateIngress ''default'' (ingressName_v1 ''b'')]\<rparr>)"
    by (subst Swap_served [OF _ _ _ _ _ swap_swapped])
       (simp_all add: twoApps_def swappedApps_def emptyCluster_def 
          createdIngress_def swappedIngress_def)
  have 2: "Swap exampleService_v1 ''a'' ''b'' (twoApps\<lparr>Ingresses :=
         fmupd (''default'', ingressName_v1 ''b'') (createdIngress ''b'')
           (fmupd (''default'', ingressName_v1 ''a'') (createdIngress ''a'') (Ingresses swappedApps)),
       requests := r\<rparr>) =
     (None, twoApps\<lparr>Ingresses :=
         fmupd (''default'', ingressName_v1 ''b'') (swappedIngress ''b'' ''a'' ''a'')
           (fmupd (''default'', ingressName_v1 ''a'') (swappedIngress ''a'' ''b'' ''b'')
           (fmupd (''default'', ingressName_v1 ''b'') (createdIngress ''b'')
           (fmupd (''default'', ingressName_v1 ''a'') (createdIngress ''a'') (Ingresses swappedApps)))),
       requests := r @ [UpdateIngress ''default'' (ingressName_v1 ''a''),
                    UpdateIngress ''default'' (ingressName_v1 ''b'')]\<rparr>)" for r
    by (subst Swap_served [OF _ _ _ _ _ swap_created])
       (simp_all add: twoApps_def emptyCluster_def 
          createdIngress_def swappedIngress_def)
  have 3: "lookup_ok (Labels (Meta (swappedIngress ''a'' ''b'' ''b''))) swapLabel = Some ''b''"
    by (simp add: swappedIngress_def lookup_ok_def)
  show ?thesis
    by (simp add: 1 2 3)
qed

lemma Swap_script:
  assumes "pending c = None # None # None # Some err # r # rest"
    and "fmlookup (Ingresses c) (v1_Namespace k, ingressName_v1 srcApp) = Some src0"
    and "fmlookup (Ingresses c) (v1_Namespace k, ingressName_v1 dstApp) = Some dst0"
    and "Name (Meta src0) = ingressName_v1 srcApp"
    and "Name (Meta dst0) = ingressName_v1 dstApp"
    and sw1: "swap src0 dst0 = Inr (src1, dst1)"
    and sw2: "swap src1 dst1 = Inr (src2, dst2)"
  shows "Swap k srcApp dstApp c =
     (case r of
        None \<Rightarrow>
          (Some err,
           c\<lparr>Ingresses := fmupd (v1_Namespace k, ingressName_v1 srcApp) src2
                 (fmupd (v1_Namespace k, ingressName_v1 srcApp) src1 (Ingresses c)),
             requests := requests c @ [UpdateIngress (v1_Namespace k) (ingressName_v1 srcApp),
                                       UpdateIngress (v1_Namespace k) (ingressName_v1 dstApp),
                                       UpdateIngress (v1_Namespace k) (ingressName_v1 srcApp)],
             pending := rest\<rparr>)
      | Some errRollback \<Rightarrow>
          (Some (RollbackFailed err errRollback),
           c\<lparr>Ingresses := fmupd (v1_Namespace k, ingressName_v1 srcApp) src1 (Ingresses c),
             requests := requests c @ [UpdateIngress (v1_Namespace k) (ingressName_v1 srcApp),
                                       UpdateIngress (v1_Namespace k) (ingressName_v1 dstApp),
                                       UpdateIngress (v1_Namespace k) (ingressName_v1 srcApp)],
             pending := rest\<rparr>))"
  using assms swap_Name [OF sw1] swap_Name [OF sw2]
  by (simp add: Swap_def get_v1_def Ingresses_Get_def Ingresses_Update_def serve_def logged_def
        split: option.splits)

lemma ingressName_v1_inj: "ingressName_v1 a = ingressName_v1 b \<longleftrightarrow> a = b"
  by (simp add: ingressName_v1_def)

text \<open>
  Claim C5, as amended. The store serves the two reads and the write of the source, fails the
  write of the destination with \<open>err\<close> and answers the rollback write with \<open>r\<close>;
  the exchange itself does not panic. If the rollback write is served, \<open>Swap\<close> returns
  \<open>err\<close>, the source is in the store with the backend it had before and, when its swap
  label was absent or named the (non-empty) application of the destination, it is the object
  it was before; the destination, when it is another application, is the object it was before.
  If the rollback write fails, \<open>Swap\<close> returns the error that holds both failures.
\<close>

theorem Swap_rollback:
  assumes p: "pending c = None # None # None # Some err # r # rest"
    and a: "fmlookup (Ingresses c) (v1_Namespace k, ingressName_v1 srcApp) = Some src0"
    and b: "fmlookup (Ingresses c) (v1_Namespace k, ingressName_v1 dstApp) = Some dst0"
    and na: "Name (Meta src0) = ingressName_v1 srcApp"
    and nb: "Name (Meta dst0) = ingressName_v1 dstApp"
    and sw1: "swap src0 dst0 = Inr (src1, dst1)"
  shows "(r = None \<longrightarrow>
            fst (Swap k srcApp dstApp c) = Some err
          \<and> (\<exists>src2. fmlookup (Ingresses (snd (Swap k srcApp dstApp c)))
                        (v1_Namespace k, ingressName_v1 srcApp) = Some src2
                \<and> Backend (Spec src2) = Backend (Spec src0)
                \<and> (lookup_ok (Labels (Meta src0)) swapLabel = None
                     \<or> lookup_ok (Labels (Meta src0)) swapLabel
                          = Some (index (Labels (Meta dst0)) appLabel)
                        \<and> index (Labels (Meta dst0)) appLabel \<noteq> [] \<longrightarrow>
                   src2 = src0))
          \<and> (srcApp \<noteq> dstApp \<longrightarrow>
               fmlookup (Ingresses (snd (Swap k srcApp dstApp c)))
                 (v1_Namespace k, ingressName_v1 dstApp) = Some dst0))
       \<and> (\<forall>errRollback. r = Some errRollback \<longrightarrow>
            fst (Swap k srcApp dstApp c) = Some (RollbackFailed err errRollback))"
proof -
  from swap_again [OF sw1] obtain src2 dst2 where sw2: "swap src1 dst1 = Inr (src2, dst2)"
    by blast
  note S = Swap_script [OF p a b na nb sw1 sw2]
  have spec: "Backend (Spec src2) = Backend (Spec src0)"
    using swap_swap(1) [OF sw1 sw2]
    by (metis Ingress.select_convs(2) Ingress.surjective Ingress.update_convs(1))
  have same: "src2 = src0"
    if c: "lookup_ok (Labels (Meta src0)) swapLabel = None
           \<or> lookup_ok (Labels (Meta src0)) swapLabel = Some (index (Labels (Meta dst0)) appLabel)
             \<and> index (Labels (Meta dst0)) appLabel \<noteq> []"
  proof -
    have "Labels (Meta src2) = Labels (Meta src0)"
    proof (cases "lookup_ok (Labels (Meta src0)) swapLabel")
      case None
      then have "index (Labels (Meta src0)) swapLabel = []" by (simp add: index_def)
      then have "index (Labels (Meta src0)) swapLabel \<noteq> index (Labels (Meta dst0)) appLabel
           \<or> index (Labels (Meta dst0)) appLabel = []" by auto
      from swap_swap(3) [OF sw1 sw2 this] None show ?thesis
        by (simp add: delete_absent)
    next
      case (Some v)
      with c have v: "v = index (Labels (Meta dst0)) appLabel" "v \<noteq> []" by auto
      with Some have "index (Labels (Meta src0)) swapLabel = index (Labels (Meta dst0)) appLabel
           \<and> index (Labels (Meta dst0)) appLabel \<noteq> []" by (simp add: index_def)
      from swap_swap(4) [OF sw1 sw2 this] obtain ls ld where
        l: "Labels (Meta src0) = Some ls" "Labels (Meta dst0) = Some ld"
           "Labels (Meta src2) = Some (fmupd swapLabel (index (Some ld) appLabel) (fmdrop swapLabel ls))"
        by blast
      with Some v have "fmlookup ls swapLabel = Some (index (Some ld) appLabel)"
        by (simp add: lookup_ok_def)
      with l show ?thesis by (simp add: fmupd_fmdrop_same)
    qed
    with swap_swap(1) [OF sw1 sw2] show ?thesis by simp
  qed
  show ?thesis
  proof (cases r)
    case None
    with S spec same show ?thesis by (auto simp: b ingressName_v1_inj)
  next
    case (Some e2)
    with S show ?thesis by simp
  qed
qed

lemma swap_third_party:
  "swap (swappedIngress ''a'' ''a'' ''c'') (createdIngress ''b'')
     = Inr (swappedIngress ''a'' ''b'' ''b'', swappedIngress ''b'' ''a'' ''a'')"
  using label_consts
  by (simp add: swap_def createdIngress_def swappedIngress_def Let_def index_def lookup_ok_def
        assign_def)

text \<open>
  The claim as it stands fails for a source whose swap label names a third application: after
  the rollback the source has no swap label.
\<close>

theorem Swap_rollback_third_party:
  "fmlookup (Ingresses thirdParty) (''default'', ingressName_v1 ''a'')
     = Some (swappedIngress ''a'' ''a'' ''c'')
   \<and> lookup_ok (Labels (Meta (swappedIngress ''a'' ''a'' ''c''))) swapLabel = Some ''c''
   \<and> fst (Swap exampleService_v1 ''a'' ''b'' thirdParty) = Some (StoreError ''conflict'')
   \<and> fmlookup (Ingresses (snd (Swap exampleService_v1 ''a'' ''b'' thirdParty)))
       (''default'', ingressName_v1 ''a'') = Some (createdIngress ''a'')
   \<and> lookup_ok (Labels (Meta (createdIngress ''a''))) swapLabel = None"
proof -
  have p: "pending thirdParty = None # None # None # Some (StoreError ''conflict'') # None # []"
    by (simp add: thirdParty_def)
  have a: "fmlookup (Ingresses thirdParty) (v1_Namespace exampleService_v1, ingressName_v1 ''a'')
             = Some (swappedIngress ''a'' ''a'' ''c'')"
    and b: "fmlookup (Ingresses thirdParty) (v1_Namespace exampleService_v1, ingressName_v1 ''b'')
             = Some (createdIngress ''b'')"
    by (simp_all add: thirdParty_def)
  have n: "Name (Meta (swappedIngress ''a'' ''a'' ''c'')) = ingressName_v1 ''a''"
      "Name (Meta (createdIngress ''b'')) = ingressName_v1 ''b''"
    by (simp_all add: createdIngress_def swappedIngress_def)
  note S = Swap_script [OF p a b n swap_third_party swap_swapped]
  have l: "lookup_ok (Labels (Meta (swappedIngress ''a'' ''a'' ''c''))) swapLabel = Some ''c''"
      "lookup_ok (Labels (Meta (createdIngress ''a''))) swapLabel = None"
    using label_consts by (simp_all add: swappedIngress_def createdIngress_def lookup_ok_def)
  from a l show ?thesis
    by (simp add: S)
qed

theorem Swap_rollback_witness:
  "fst (Swap exampleService_v1 ''a'' ''b'' (failingTwoApps None)) = Some (StoreError ''conflict'')
   \<and> (\<exists>src2. fmlookup (Ingresses (snd (Swap exampleService_v1 ''a'' ''b'' (failingTwoApps None))))
                 (''default'', ingressName_v1 ''a'') = Some src2
              \<and> src2 = createdIngress ''a'')
   \<and> fmlookup (Ingresses (snd (Swap exampleService_v1 ''a'' ''b'' (failingTwoApps None))))
         (''default'', ingressName_v1 ''b'') = Some (createdIngress ''b'')
   \<and> fst (Swap exampleService_v1 ''a'' ''b'' (failingTwoApps (Some (StoreError ''gone''))))
       = Some (RollbackFailed (StoreError ''conflict'') (StoreError ''gone''))"
proof -
  have p: "pending (failingTwoApps r) = None # None # None # Some (StoreError ''conflict'') # r # []" for r
    by (simp add: failingTwoApps_def)
  have a: "fmlookup (Ingresses (failingTwoApps r)) (v1_Namespace exampleService_v1, ingressName_v1 ''a'')
             = Some (createdIngress ''a'')"
    and b: "fmlookup (Ingresses (failingTwoApps r)) (v1_Namespace exampleService_v1, ingressName_v1 ''b'')
             = Some (createdIngress ''b'')" for r
    by (simp_all add: failingTwoApps_def twoApps_def)
  have n: "Name (Meta (createdIngress ''a'')) = ingressName_v1 ''a''"
      "Name (Meta (createdIngress ''b'')) = ingressName_v1 ''b''"
    by (simp_all add: createdIngress_def)
  have l: "lookup_ok (Labels (Meta (createdIngress ''a''))) swapLabel = None"
    using label_consts by (simp add: createdIngress_def lookup_ok_def)
  from Swap_rollback [OF p a b n swap_created, of None]
       Swap_rollback [OF p a b n swap_created, of "Some (StoreError ''gone'')"] l
  show ?thesis by auto
qed

subsection \<open>Removal\<close>

text \<open>
  Claim C8, as amended. \<open>Remove_v1\<close>, the removal of the revision that has
  \<open>Swap\<close>: when the object it reads carries a swap label naming \<open>dstApp\<close>, it
  returns \<open>ErrAppSwapped appName dstApp\<close> and the store has received no request and holds
  the same objects; when the read finds the object absent it returns no error, again without a
  request; when the delete finds it absent it returns no error. \<open>Remove\<close>, the removal of
  the second revision, reads nothing and has no such guard: on a store that serves every call it
  deletes the primary object that the namespace holds, whatever its labels are, and returns no
  error; it returns no error either when the delete finds the object absent, and then leaves
  the objects of the store as they are.
\<close>

theorem Remove_swapped:
  "(get_v1 k appName c = (Inr ingress, c1)
      \<and> lookup_ok (Labels (Meta ingress)) swapLabel = Some dstApp \<longrightarrow>
      Remove_v1 k appName c = (Some (ErrAppSwapped appName dstApp), c1)
      \<and> requests c1 = requests c \<and> Ingresses c1 = Ingresses c)
   \<and> (get_v1 k appName c = (Inl NotFound, c1) \<longrightarrow>
        Remove_v1 k appName c = (None, c1) \<and> requests c1 = requests c)
   \<and> (get_v1 k appName c = (Inr ingress, c1)
        \<and> lookup_ok (Labels (Meta ingress)) swapLabel = None
        \<and> Ingresses_Delete (v1_Namespace k) (ingressName_v1 appName) c1 = (Some NotFound, c2) \<longrightarrow>
        Remove_v1 k appName c = (None, c2))
   \<and> (pending c = [] \<and> fmlookup (Ingresses c) (v1_Namespace k, ingressName_v1 appName) = None \<longrightarrow>
        Remove_v1 k appName c = (None, c))
   \<and> (getAppNamespace k' (AppName iid) c = (Inr ns, c1)
        \<and> Ingresses_Delete ns (ingressName k' iid) c1 = (Some NotFound, c2) \<longrightarrow>
        Remove k' iid c = (None, c2))
   \<and> (pending c = [] \<and> getAppNamespace k' (AppName iid) c = (Inr ns, c1)
        \<and> fmlookup (Ingresses c) (ns, ingressName k' iid) = None \<longrightarrow>
        fst (Remove k' iid c) = None \<and> Ingresses (snd (Remove k' iid c)) = Ingresses c)
   \<and> (pending c = [] \<and> getAppNamespace k' (AppName iid) c = (Inr ns, c1)
        \<and> fmlookup (Ingresses c) (ns, ingressName k' iid) = Some ingress' \<longrightarrow>
        Remove k' iid c =
          (None, c\<lparr>Ingresses := fmdrop (ns, ingressName k' iid) (Ingresses c),
                    requests := requests c @ [DeleteIngress ns (ingressName k' iid)]\<rparr>))"
proof (intro conjI impI)
  assume a: "get_v1 k appName c = (Inr ingress, c1)
      \<and> lookup_ok (Labels (Meta ingress)) swapLabel = Some dstApp"
  then show "Remove_v1 k appName c = (Some (ErrAppSwapped appName dstApp), c1)"
    by (simp add: Remove_v1_def)
  from a have "c1 = c\<lparr>pending := tl (pending c)\<rparr>"
    unfolding get_v1_def by (auto dest: Ingresses_Get_same)
  then show "requests c1 = requests c" "Ingresses c1 = Ingresses c" by simp_all
next
  assume a: "get_v1 k appName c = (Inl NotFound, c1)"
  then show "Remove_v1 k appName c = (None, c1)"
    by (simp add: Remove_v1_def)
  from a have "c1 = c\<lparr>pending := tl (pending c)\<rparr>"
    unfolding get_v1_def by (auto dest: Ingresses_Get_same)
  then show "requests c1 = requests c" by simp
next
  assume "get_v1 k appName c = (Inr ingress, c1)
        \<and> lookup_ok (Labels (Meta ingress)) swapLabel = None
        \<and> Ingresses_Delete (v1_Namespace k) (ingressName_v1 appName) c1 = (Some NotFound, c2)"
  then show "Remove_v1 k appName c = (None, c2)"
    by (simp add: Remove_v1_def)
next
  assume "pending c = [] \<and> fmlookup (Ingresses c) (v1_Namespace k, ingressName_v1 appName) = None"
  then show "Remove_v1 k appName c = (None, c)"
    by (simp add: Remove_v1_def get_v1_def Ingresses_Get_def serve_nil)
next
  assume "getAppNamespace k' (AppName iid) c = (Inr ns, c1)
        \<and> Ingresses_Delete ns (ingressName k' iid) c1 = (Some NotFound, c2)"
  then show "Remove k' iid c = (None, c2)"
    by (simp add: Remove_def)
next
  assume a: "pending c = [] \<and> getAppNamespace k' (AppName iid) c = (Inr ns, c1)
        \<and> fmlookup (Ingresses c) (ns, ingressName k' iid) = None"
  then have "c1 = c" by (auto dest: getAppNamespace_nil)
  with a show "fst (Remove k' iid c) = None" "Ingresses (snd (Remove k' iid c)) = Ingresses c"
    by (simp_all add: Remove_def Ingresses_Delete_def serve_def logged_def)
next
  assume a: "pending c = [] \<and> getAppNamespace k' (AppName iid) c = (Inr ns, c1)
        \<and> fmlookup (Ingresses c) (ns, ingressName k' iid) = Some ingress'"
  then have "c1 = c" by (auto dest: getAppNamespace_nil)
  with a show "Remove k' iid c =
          (None, c\<lparr>Ingresses := fmdrop (ns, ingressName k' iid) (Ingresses c),
                    requests := requests c @ [DeleteIngress ns (ingressName k' iid)]\<rparr>)"
    by (simp add: Remove_def Ingresses_Delete_def serve_def logged_def)
qed

theorem Remove_swapped_witness:
  "Remove_v1 exampleService_v1 ''a'' swappedApps = (Some (ErrAppSwapped ''a'' ''b''), swappedApps)
   \<and> Remove_v1 exampleService_v1 ''c'' swappedApps = (None, swappedApps)
   \<and> fst (Remove exampleService app1 emptyCluster) = None
   \<and> Remove exampleService app1 readyCluster =
       (None, readyCluster\<lparr>Ingresses := fmempty,
                requests := [DeleteIngress ''default'' ''kubernetes-router-a-ingress'']\<rparr>)"
proof -
  have g: "get_v1 exampleService_v1 ''a'' swappedApps = (Inr (swappedIngress ''a'' ''b'' ''b''), swappedApps)"
    by (simp add: get_v1_def Ingresses_Get_def serve_def swappedApps_def emptyCluster_def)
  have l: "lookup_ok (Labels (Meta (swappedIngress ''a'' ''b'' ''b''))) swapLabel = Some ''b''"
    by (simp add: swappedIngress_def lookup_ok_def)
  have p: "pending swappedApps = []" "pending emptyCluster = []"
    by (simp_all add: swappedApps_def emptyCluster_def)
  have n: "fmlookup (Ingresses swappedApps) (v1_Namespace exampleService_v1, ingressName_v1 ''c'') = None"
    by (simp add: swappedApps_def emptyCluster_def ingressName_v1_def)
  have ns: "getAppNamespace exampleService (AppName app1) emptyCluster = (Inr ''default'', emptyCluster)"
    by (simp add: getAppNamespace_def serve_def emptyCluster_def exampleService_def)
  have e: "fmlookup (Ingresses emptyCluster) (''default'', ingressName exampleService app1) = None"
    by (simp add: emptyCluster_def)
  from Remove_swapped [of exampleService_v1 "''a''" swappedApps "swappedIngress ''a'' ''b'' ''b''"
      swappedApps "''b''"] g l
  have 1: "Remove_v1 exampleService_v1 ''a'' swappedApps = (Some (ErrAppSwapped ''a'' ''b''), swappedApps)"
    by simp
  from Remove_swapped [of exampleService_v1 "''c''" swappedApps] p n
  have 2: "Remove_v1 exampleService_v1 ''c'' swappedApps = (None, swappedApps)"
    by simp
  from Remove_swapped [of _ _ emptyCluster _ emptyCluster _ _ exampleService app1 "''default''"] p ns e
  have 3: "fst (Remove exampleService app1 emptyCluster) = None"
    by simp
  have pr: "pending readyCluster = []" "requests readyCluster = []"
    by (simp_all add: readyCluster_def emptyCluster_def)
  have nr: "getAppNamespace exampleService (AppName app1) readyCluster = (Inr ''default'', readyCluster)"
    by (simp add: getAppNamespace_def serve_def readyCluster_def emptyCluster_def exampleService_def)
  have er: "fmlookup (Ingresses readyCluster) (''default'', ingressName exampleService app1)
              = Some (hostIngress\<lparr>LoadBalancer := [''10.0.0.1'']\<rparr>)"
    by (simp add: readyCluster_def emptyCluster_def ingressName_def exampleService_def app1_def)
  have dr: "fmdrop (''default'', ingressName exampleService app1) (Ingresses readyCluster) = fmempty"
    by (simp add: readyCluster_def emptyCluster_def ingressName_def exampleService_def app1_def
          fmdrop_fmupd_same)
  from Remove_swapped [of _ _ readyCluster _ readyCluster _ _ exampleService app1 "''default''"
      "hostIngress\<lparr>LoadBalancer := [''10.0.0.1'']\<rparr>"] pr nr er
  have 4: "Remove exampleService app1 readyCluster =
       (None, readyCluster\<lparr>Ingresses := fmempty,
                requests := [DeleteIngress ''default'' ''kubernetes-router-a-ingress'']\<rparr>)"
    by (simp add: dr) (simp add: ingressName_def exampleService_def app1_def)
  from 1 2 3 4 show ?thesis by simp
qed

text \<open>
  The claim as it stands fails for the removal of the second revision: the primary object
  carries a swap label, and \<open>Remove\<close> deletes it and returns no error.
\<close>

theorem Remove_swap_labelled:
  "fmlookup (Ingresses labelledCluster) (''default'', ingressName exampleService app1)
     = Some labelledIngress
   \<and> lookup_ok (Labels (Meta labelledIngress)) swapLabel = Some ''b''
   \<and> Remove exampleService app1 labelledCluster =
       (None, labelledCluster\<lparr>Ingresses := fmempty,
                requests := [DeleteIngress ''default'' ''kubernetes-router-a-ingress'']\<rparr>)"
  by (simp add: Remove_def getAppNamespace_def serve_def Ingresses_Delete_def logged_def
        labelledCluster_def emptyCluster_def labelledIngress_def lookup_ok_def
        exampleService_def app1_def ingressName_def fmdrop_fmupd_same)

subsection \<open>Removing a certificate\<close>

lemma spliceHosts_length:
  "spliceHosts k h hosts tls = Inr tls' \<Longrightarrow> length tls' < length tls \<or> tls' = tls"
proof (induction hosts arbitrary: tls)
  case Nil
  then show ?case by simp
next
  case (Cons host hosts)
  show ?case
  proof (cases "h = host")
    case True
    with Cons.prems have le: "k + 1 \<le> length tls"
      and r: "spliceHosts k h hosts (take k tls @ drop (k + 1) tls) = Inr tls'"
      by (simp_all split: if_splits)
    from le have "length (take k tls @ drop (k + 1) tls) < length tls" by simp
    with Cons.IH [OF r] show ?thesis by auto
  next
    case False
    with Cons show ?thesis by simp
  qed
qed

lemma spliceHosts_match:
  "h \<in> set hosts \<Longrightarrow> spliceHosts k h hosts tls = Inr tls' \<Longrightarrow> length tls' < length tls"
proof (induction hosts arbitrary: tls)
  case Nil
  then show ?case by simp
next
  case (Cons host hosts)
  show ?case
  proof (cases "h = host")
    case True
    with Cons.prems have le: "k + 1 \<le> length tls"
      and r: "spliceHosts k h hosts (take k tls @ drop (k + 1) tls) = Inr tls'"
      by (simp_all split: if_splits)
    from le have "length (take k tls @ drop (k + 1) tls) < length tls" by simp
    with spliceHosts_length [OF r] show ?thesis by auto
  next
    case False
    with Cons show ?thesis by simp
  qed
qed

lemma spliceHosts_Inl: "spliceHosts k h hosts tls = Inl p \<Longrightarrow> p = Panic"
  by (induction hosts arbitrary: tls) (auto split: if_splits)

text \<open>Once the slice is shorter than the range, the range ends in a panic.\<close>

lemma spliceTLS_short:
  "length tls < n \<Longrightarrow> k < n \<Longrightarrow> spliceTLS [k..<n] h tls = Inl Panic"
proof (induction "n - k" arbitrary: k tls)
  case 0
  then show ?case by simp
next
  case (Suc m)
  from Suc.prems have up: "[k..<n] = k # [Suc k..<n]" by (simp add: upt_conv_Cons)
  show ?case
  proof (cases "k \<ge> length tls")
    case True
    with up show ?thesis by simp
  next
    case False
    show ?thesis
    proof (cases "spliceHosts k h (elems (Hosts (tls ! k))) tls")
      case (Inl p)
      with False up spliceHosts_Inl [OF Inl] show ?thesis by simp
    next
      case (Inr tls')
      from spliceHosts_length [OF Inr] Suc.prems have l: "length tls' < n" by auto
      from False Suc.prems have "Suc k < n" by simp
      moreover from Suc.hyps(2) have "m = n - Suc k" by simp
      ultimately have "spliceTLS [Suc k..<n] h tls' = Inl Panic"
        using Suc.hyps(1) l by blast
      with False up Inr show ?thesis by simp
    qed
  qed
qed

lemma spliceTLS_before_last:
  "k \<le> j \<Longrightarrow> Suc j < length tls \<Longrightarrow> h \<in> set (elems (Hosts (tls ! j))) \<Longrightarrow>
     spliceTLS [k..<length tls] h tls = Inl Panic"
proof (induction "j - k" arbitrary: k)
  case 0
  then have kj: "k = j" by simp
  with 0 have up: "[k..<length tls] = k # [Suc k..<length tls]" by (simp add: upt_conv_Cons)
  from 0 kj have lt: "\<not> k \<ge> length tls" by simp
  show ?case
  proof (cases "spliceHosts k h (elems (Hosts (tls ! k))) tls")
    case (Inl p)
    with lt up spliceHosts_Inl [OF Inl] show ?thesis by simp
  next
    case (Inr tls')
    from spliceHosts_match [OF _ Inr] 0 kj have "length tls' < length tls" by simp
    with 0 kj have "spliceTLS [Suc k..<length tls] h tls' = Inl Panic"
      by (intro spliceTLS_short) simp_all
    with lt up Inr show ?thesis by simp
  qed
next
  case (Suc m)
  then have up: "[k..<length tls] = k # [Suc k..<length tls]" by (simp add: upt_conv_Cons)
  from Suc have lt: "\<not> k \<ge> length tls" by simp
  show ?case
  proof (cases "spliceHosts k h (elems (Hosts (tls ! k))) tls")
    case (Inl p)
    with lt up spliceHosts_Inl [OF Inl] show ?thesis by simp
  next
    case (Inr tls')
    from spliceHosts_length [OF Inr] show ?thesis
    proof
      assume "length tls' < length tls"
      with Suc have "spliceTLS [Suc k..<length tls] h tls' = Inl Panic"
        by (intro spliceTLS_short) simp_all
      with lt up Inr show ?thesis by simp
    next
      assume e: "tls' = tls"
      from Suc.hyps(2) Suc.prems have "m = j - Suc k" "Suc k \<le> j" by simp_all
      with Suc.hyps(1) Suc.prems have "spliceTLS [Suc k..<length tls] h tls = Inl Panic"
        by blast
      with lt up Inr e show ?thesis by simp
    qed
  qed
qed

text \<open>
  Claim C7: what the code does instead. On a store that serves every call, whenever an entry
  of the TLS list other than the last one lists the host, \<open>RemoveCertificate\<close> panics:
  the splice shortens the slice while the range still runs to the old length. No update and no
  delete of the secret is issued.
\<close>

theorem RemoveCertificate_panics:
  assumes "pending c = []"
    and "getAppNamespace k (AppName iid) c = (Inr ns, c')"
    and "fmlookup (Ingresses c) (ns, ingressName k iid) = Some ingress"
    and "TLS (Spec ingress) = Some tls"
    and "Suc j < length tls"
    and "certCname \<in> set (elems (Hosts (tls ! j)))"
  shows "RemoveCertificate k iid certCname c = (Some Panic, c)"
proof -
  from assms(1,2) have "c' = c" by (rule getAppNamespace_nil)
  moreover from assms(5,6) have "spliceTLS [0..<length tls] certCname tls = Inl Panic"
    by (intro spliceTLS_before_last [of 0 j]) simp_all
  ultimately show ?thesis
    using assms(1-4)
    by (simp add: RemoveCertificate_def get_def Ingresses_Get_def serve_nil)
qed

text \<open>Two adjacent entries for the host: the first is spliced out, then the index 1 is out of range.\<close>

theorem RemoveCertificate_adjacent:
  "RemoveCertificate exampleService app1 ''h.example'' twoCerts = (Some Panic, twoCerts)"
proof -
  let ?tls = "[\<lparr>Hosts = Some [''h.example''], SecretName = ''kr-a-h.example''\<rparr>,
               \<lparr>Hosts = Some [''h.example''], SecretName = ''kr-a-h.example-2''\<rparr>]"
  have ns: "getAppNamespace exampleService (AppName app1) twoCerts = (Inr ''default'', twoCerts)"
    by (simp add: getAppNamespace_def serve_def twoCerts_def emptyCluster_def exampleService_def)
  have p: "pending twoCerts = []" by (simp add: twoCerts_def emptyCluster_def)
  have n: "ingressName exampleService app1 = ''kubernetes-router-a-ingress''"
    by (simp add: ingressName_def exampleService_def app1_def)
  have g: "fmlookup (Ingresses twoCerts) (''default'', ingressName exampleService app1)
             = Some (hostIngress\<lparr>Spec := (Spec hostIngress)\<lparr>TLS := Some ?tls\<rparr>\<rparr>)"
    by (simp add: n twoCerts_def)
  have t: "TLS (Spec (hostIngress\<lparr>Spec := (Spec hostIngress)\<lparr>TLS := Some ?tls\<rparr>\<rparr>)) = Some ?tls"
    by simp
  show ?thesis
    by (rule RemoveCertificate_panics [OF p ns g t, where j = 0]) (simp_all add: elems_def)
qed

subsection \<open>The order of a range over the options\<close>

text \<open>
  \<open>rangeOrder\<close> gives the permutations of the entries, and all of them. When no two
  options touch the same annotation, the steps of the range commute and its order does not
  show in the result.
\<close>

lemma rangeOrder_Nil [simp]: "rangeOrder ns [] = []"
  by (cases ns) simp_all

lemma firstRange_Nil [simp]: "firstRange [] = []"
  by (simp add: firstRange_def)

lemma laterRanges_Nil [simp]: "laterRanges [] = []"
  by (simp add: laterRanges_def)

lemma mset_remove_nth:
  "i < length xs \<Longrightarrow> add_mset (xs ! i) (mset (take i xs @ drop (Suc i) xs)) = mset xs"
proof -
  assume "i < length xs"
  then have "xs = take i xs @ xs ! i # drop (Suc i) xs" by (rule id_take_nth_drop)
  then have "mset xs = mset (take i xs @ xs ! i # drop (Suc i) xs)" by simp
  then show ?thesis by simp
qed

lemma mset_rangeOrder: "mset (rangeOrder ns xs) = mset xs"
proof (induction ns arbitrary: xs)
  case Nil
  then show ?case by simp
next
  case (Cons n ns)
  show ?case
  proof (cases "xs = []")
    case True
    then show ?thesis by simp
  next
    case False
    then have "n mod length xs < length xs" by simp
    from mset_remove_nth [OF this] Cons.IH False show ?thesis by (simp add: Let_def)
  qed
qed

lemma rangeOrder_any: "mset ys = mset xs \<Longrightarrow> \<exists>ns. rangeOrder ns xs = ys"
proof (induction ys arbitrary: xs)
  case Nil
  then have "xs = []" by simp
  then show ?case by simp
next
  case (Cons y ys)
  then have "y \<in> set xs" by (metis list.set_intros(1) set_mset_mset)
  then obtain i where i: "i < length xs" "xs ! i = y" by (auto simp: in_set_conv_nth)
  from mset_remove_nth [OF i(1)] i(2) Cons.prems
  have "mset ys = mset (take i xs @ drop (Suc i) xs)" by (metis add_mset_remove_trivial mset.simps(2))
  from Cons.IH [OF this] obtain ns where ns: "rangeOrder ns (take i xs @ drop (Suc i) xs) = ys" by blast
  from i have "xs \<noteq> []" by auto
  with i ns have "rangeOrder (i # ns) xs = y # ys" by (simp add: Let_def)
  then show ?case by blast
qed

lemma optAnnotation_commute:
  assumes "touched s (fst x) \<noteq> touched s (fst y)"
  shows "optAnnotation s (optAnnotation s A x) y = optAnnotation s (optAnnotation s A y) x"
proof -
  obtain a v where x: "x = (a, v)" by (cases x)
  obtain b w where y: "y = (b, w)" by (cases y)
  have t: "\<not> HasSuffix l ''-'' \<Longrightarrow> TrimSuffix l ''-'' = l" for l
    by (simp add: TrimSuffix_def)
  from assms have ne: "TrimSuffix (optLabel s a) ''-'' \<noteq> TrimSuffix (optLabel s b) ''-''"
    by (simp add: touched_def x y)
  show ?thesis
    using ne t [of "optLabel s a"] t [of "optLabel s b"]
    by (auto simp: optAnnotation_def x y Let_def fmdrop_fmupd fmupd_reorder_neq fmdrop_comm
          intro: fmap_ext)
qed

lemma foldl_optAnnotation_perm:
  assumes "distinct (map (\<lambda>opt. touched s (fst opt)) xs)" and "mset ys = mset xs"
  shows "foldl (optAnnotation s) A ys = foldl (optAnnotation s) A xs"
proof -
  have inj: "inj_on (\<lambda>opt. touched s (fst opt)) (set xs)"
    using assms(1) by (simp add: distinct_map)
  have c: "(\<lambda>A. optAnnotation s A x) \<circ> (\<lambda>A. optAnnotation s A y)
         = (\<lambda>A. optAnnotation s A y) \<circ> (\<lambda>A. optAnnotation s A x)"
    if "x \<in> set xs" "y \<in> set xs" for x y
  proof (cases "x = y")
    case True
    then show ?thesis by simp
  next
    case False
    with inj that have "touched s (fst x) \<noteq> touched s (fst y)" by (auto dest: inj_onD)
    from optAnnotation_commute [OF this] optAnnotation_commute [OF this [symmetric]]
    show ?thesis by (auto simp: fun_eq_iff)
  qed
  have "fold (\<lambda>x A. optAnnotation s A x) xs = fold (\<lambda>x A. optAnnotation s A x) ys"
    by (rule fold_multiset_equiv) (use c assms(2) in auto)
  then show ?thesis by (simp add: foldl_conv_fold)
qed

lemma fillIngressMeta_order:
  "optionsApart s ropts \<Longrightarrow> fillIngressMeta s i ropts iid ord = fillIngressMeta s i ropts iid []"
  using foldl_optAnnotation_perm [of s "mergedOpts s ropts" "rangeOrder ord (mergedOpts s ropts)"]
  by (simp add: fillIngressMeta_def optionsApart_def mset_rangeOrder)

lemma cnameIngress_order:
  "optionsApart k (opts_routerOpts opts) \<Longrightarrow> cnameIngress k opts ord = cnameIngress k opts []"
  by (simp add: cnameIngress_def Let_def fillIngressMeta_order [of _ _ _ _ ord] split: sum.splits)

lemma primaryIngress_order:
  "optionsApart k (Opts ebo) \<Longrightarrow>
     primaryIngress k iid ebo ns target svc ord = primaryIngress k iid ebo ns target svc []"
  by (simp add: primaryIngress_def Let_def fillIngressMeta_order [of _ _ _ _ ord] split: sum.splits)

lemma ensureCNameBackend_order:
  "optionsApart k (opts_routerOpts opts) \<Longrightarrow>
     ensureCNameBackend k opts ord c = ensureCNameBackend k opts [] c"
  by (simp add: ensureCNameBackend_def cnameIngress_order [of _ _ ord] split: prod.splits sum.splits)

lemma ensureCNames_order:
  "optionsApart k ropts \<Longrightarrow>
     ensureCNames k ns iid svc ropts cns ords c = ensureCNames k ns iid svc ropts cns [] c"
proof (induction cns arbitrary: ords c)
  case Nil
  then show ?case by simp
next
  case (Cons cn rest)
  from Cons.prems have "ensureCNameBackend k
             \<lparr>opts_namespace = ns, opts_id = iid, opts_cname = cn, opts_service = svc,
              opts_routerOpts = ropts\<rparr> (firstRange ords) c
        = ensureCNameBackend k
             \<lparr>opts_namespace = ns, opts_id = iid, opts_cname = cn, opts_service = svc,
              opts_routerOpts = ropts\<rparr> [] c"
    by (simp add: ensureCNameBackend_order [of _ _ "firstRange ords"])
  with Cons.IH [OF Cons.prems, of "laterRanges ords"] show ?case
    by (simp split: prod.splits option.splits)
qed

lemma Ensure_order:
  "optionsApart k (Opts ebo) \<Longrightarrow> Ensure k iid ebo ords c = Ensure k iid ebo [] c"
  by (simp add: Ensure_def primaryIngress_order [of _ _ _ _ _ _ "firstRange ords"]
        ensureCNames_order [of _ _ _ _ _ _ "laterRanges ords"] split: prod.splits sum.splits)

subsection \<open>Ensure, run twice\<close>

lemma Ingresses_Get_nil:
  "pending c = [] \<Longrightarrow>
     Ingresses_Get ns name c =
       ((case fmlookup (Ingresses c) (ns, name) of None \<Rightarrow> Inl NotFound | Some i \<Rightarrow> Inr i), c)"
  by (simp add: Ingresses_Get_def serve_nil split: option.splits)

lemma orNew_lookup:
  "orNew (case m of None \<Rightarrow> Inl NotFound | Some i \<Rightarrow> Inr i) = Inr m"
  by (simp add: orNew_def split: option.splits)

lemma ingressHasChanges_refl: "\<not> ingressHasChanges d d"
  using ingressHasChanges_iff [of d d] by (auto simp: index_def)








lemma fillIngressMeta_Name: "Name (Meta (fillIngressMeta s i ropts iid ord)) = Name (Meta i)"
  by (simp add: fillIngressMeta_def Let_def split: list.splits)

lemma fillIngressMeta_Backend:
  "Backend (Spec (fillIngressMeta s i ropts iid ord)) = Backend (Spec i)"
  by (simp add: fillIngressMeta_def Let_def split: list.splits)

lemma buildIngressSpec_Backend: "buildIngressSpec host path svc = Inr spec \<Longrightarrow> Backend spec = None"
  by (auto simp: buildIngressSpec_def split: list.splits)

lemma cnameIngress_Inr:
  assumes "cnameIngress k opts ord = Inr d"
  shows "Name (Meta d) = ingressCName k (opts_id opts) (opts_cname opts)"
    and "Backend (Spec d) = None"
proof -
  from assms obtain spec where
    b: "buildIngressSpec (opts_cname opts) (Route (opts_routerOpts opts)) (opts_service opts) = Inr spec"
    by (auto simp: cnameIngress_def split: sum.splits)
  from assms b show "Name (Meta d) = ingressCName k (opts_id opts) (opts_cname opts)"
    by (auto simp: cnameIngress_def Let_def fillIngressMeta_Name split: if_splits)
  from assms b buildIngressSpec_Backend [OF b] show "Backend (Spec d) = None"
    by (auto simp: cnameIngress_def Let_def fillIngressMeta_Backend split: if_splits)
qed

lemma primaryIngress_Inr:
  assumes "primaryIngress k iid ebo ns target svc ord = Inr d"
  shows "Name (Meta d) = ingressName k iid"
    and "Backend (Spec d) = None"
proof -
  from assms obtain spec where
    b: "buildIngressSpec (vhost k iid (Opts ebo)) (Route (Opts ebo)) svc = Inr spec"
    by (auto simp: primaryIngress_def split: sum.splits)
  from assms b show "Name (Meta d) = ingressName k iid"
    by (auto simp: primaryIngress_def Let_def fillIngressMeta_Name split: if_splits sum.splits)
  from assms b buildIngressSpec_Backend [OF b] show "Backend (Spec d) = None"
    by (auto simp: primaryIngress_def Let_def fillIngressMeta_Backend split: if_splits sum.splits)
qed

lemma ensureCNameBackend_served:
  assumes "pending c = []"
  shows "ensureCNameBackend k opts ord c =
           (case cnameIngress k opts ord of
              Inl p \<Rightarrow> (Some p, c)
            | Inr d \<Rightarrow>
                createOrUpdate (opts_namespace opts)
                  (fmlookup (Ingresses c) (opts_namespace opts, Name (Meta d))) d c)"
  using assms
  by (auto simp: ensureCNameBackend_def Ingresses_Get_nil orNew_lookup cnameIngress_Inr(1)
        split: sum.splits)






lemma getAppNamespace_served:
  "pending c = [] \<Longrightarrow>
     getAppNamespace k appName c =
       (Inr (case fmlookup (Apps c) appName of
               None \<Rightarrow> base_Namespace k
             | Some ns \<Rightarrow> if ns = [] then base_Namespace k else ns), c)"
  by (simp add: getAppNamespace_def serve_nil split: option.splits)


text \<open>
  \<open>Ensure\<close> on a store that serves every call, once the helpers have answered: the
  three stages, decided on the object that the store holds under the primary name.
\<close>

lemma Ensure_stages:
  assumes p: "pending c = []"
    and ns: "getAppNamespace k (AppName iid) c = (Inr ns, c')"
    and t: "getDefaultBackendTarget k (Prefixes ebo) = Inr target"
    and w: "getWebService k (Services c) (AppName iid) target = Inr svc"
    and d: "primaryIngress k iid ebo ns target svc (firstRange ords) = Inr D"
  shows "Ensure k iid ebo ords c =
     (case ensureCNames k ns iid svc (Opts ebo) (CNames ebo) (laterRanges ords) c of
        (Some err, c3) \<Rightarrow> (Some err, c3)
      | (None, c3) \<Rightarrow>
          (case removeCNames k ns iid svc (Opts ebo)
                  (cnamesToRemove ebo (fmlookup (Ingresses c) (ns, ingressName k iid))) c3 of
             (Some err, c4) \<Rightarrow> (Some err, c4)
           | (None, c4) \<Rightarrow>
               createOrUpdate ns (fmlookup (Ingresses c) (ns, ingressName k iid)) D c4))"
proof -
  from p ns have "getAppNamespace k (AppName iid) c = (Inr ns, c)"
    by (auto simp: getAppNamespace_served)
  with p t w d show ?thesis
    by (simp add: Ensure_def get_def Ingresses_Get_nil orNew_lookup)
qed

lemma Ensure_served:
  assumes p: "pending c = []"
    and ns: "getAppNamespace k (AppName iid) c = (Inr ns, c')"
    and t: "getDefaultBackendTarget k (Prefixes ebo) = Inr target"
    and w: "getWebService k (Services c) (AppName iid) target = Inr svc"
    and d: "primaryIngress k iid ebo ns target svc [] = Inr D"
  shows "Ensure k iid ebo [] c =
     (case ensureCNames k ns iid svc (Opts ebo) (CNames ebo) [] c of
        (Some err, c3) \<Rightarrow> (Some err, c3)
      | (None, c3) \<Rightarrow>
          (case removeCNames k ns iid svc (Opts ebo)
                  (cnamesToRemove ebo (fmlookup (Ingresses c) (ns, ingressName k iid))) c3 of
             (Some err, c4) \<Rightarrow> (Some err, c4)
           | (None, c4) \<Rightarrow>
               createOrUpdate ns (fmlookup (Ingresses c) (ns, ingressName k iid)) D c4))"
  using Ensure_stages [OF p ns t w, where ords = "[]" and D = D] d by simp















lemma primaryIngress_total:
  "Ports svc \<noteq> [] \<Longrightarrow> \<exists>D. primaryIngress k iid ebo ns target svc ord = Inr D"
  by (auto simp: primaryIngress_def buildIngressSpec_def Let_def assign_def fillIngressMeta_def
        split: list.splits option.splits)

lemma cnameIngress_total:
  "Ports (opts_service opts) \<noteq> [] \<Longrightarrow> \<exists>d. cnameIngress k opts ord = Inr d"
  by (auto simp: cnameIngress_def buildIngressSpec_def Let_def split: list.splits)

lemma createOrUpdate_create:
  "pending c = [] \<Longrightarrow> fmlookup (Ingresses c) (ns, Name (Meta d)) = None \<Longrightarrow>
     createOrUpdate ns None d c =
       (None, c\<lparr>Ingresses := fmupd (ns, Name (Meta d)) d (Ingresses c),
                 requests := requests c @ [CreateIngress ns (Name (Meta d))]\<rparr>)"
  by (simp add: createOrUpdate_def Ingresses_Create_def serve_def logged_def)


lemma exampleService_names:
  "ingressName exampleService app1 = ''kubernetes-router-a-ingress''"
  "ingressCName exampleService iid cn = ''kubernetes-router-cname-'' @ cn"
  by (simp_all add: ingressName_def ingressCName_def exampleService_def app1_def)


lemma exampleService_helpers:
  "getDefaultBackendTarget exampleService prefixes
     = Inr \<lparr>target_Service = ''web'', target_Namespace = ''default''\<rparr>"
  "getWebService exampleService (s # rest) appName target = Inr s"
  by (simp_all add: exampleService_def)

lemma exampleService_namespace:
  "pending c = [] \<Longrightarrow> Apps c = fmempty \<Longrightarrow>
     getAppNamespace exampleService appName c = (Inr ''default'', c)"
  by (simp add: getAppNamespace_served exampleService_def)

lemma exampleService_mergedOpts: "mergedOpts exampleService ropts = AdditionalOpts ropts"
  by (simp add: mergedOpts_def exampleService_def)

lemma exampleService_base:
  "base_Annotations exampleService = fmempty" "base_Labels exampleService = fmempty"
  by (simp_all add: exampleService_def)


lemma aliases_apart: "optionsApart exampleService (Opts (aliases cns p))"
  by (simp add: optionsApart_def exampleService_mergedOpts aliases_def routeOpts_def)


lemma Ports_plainService: "Ports (plainService name port) \<noteq> []"
  by (simp add: plainService_def)








lemma ensureCNameBackend_create:
  assumes "pending c = []" and d: "cnameIngress k opts ord = Inr d"
    and "fmlookup (Ingresses c) (opts_namespace opts, Name (Meta d)) = None"
  shows "ensureCNameBackend k opts ord c =
           (None, c\<lparr>Ingresses := fmupd (opts_namespace opts, Name (Meta d)) d (Ingresses c),
                     requests := requests c @ [CreateIngress (opts_namespace opts) (Name (Meta d))]\<rparr>)"
  using assms by (simp add: ensureCNameBackend_served createOrUpdate_create)

lemma primaryIngress_few:
  "length cns \<le> 1 \<Longrightarrow> length cns' \<le> 1 \<Longrightarrow>
     primaryIngress k iid (aliases cns p) ns target svc ord
       = primaryIngress k iid (aliases cns' p') ns target svc ord"
  by (auto simp: primaryIngress_def aliases_def Let_def split: sum.splits)

lemma primaryIngress_example_annotation:
  assumes "primaryIngress exampleService app1 (aliases cns p) ns target svc ord = Inr D"
    and "length cns \<le> 1"
  shows "index (Annotations (Meta D)) AnnotationsCNames = []"
  using assms
  by (auto simp: primaryIngress_def aliases_def routeOpts_def fillIngressMeta_def Let_def
        exampleService_mergedOpts exampleService_base index_def lookup_ok_def
        split: sum.splits)

text \<open>
  A first \<open>Ensure\<close> with the single alias \<open>x.org\<close> on a store without objects, then a
  second one with no alias.
\<close>

lemma Ensure_one_alias:
  "\<exists>dx D. Ensure exampleService app1 (aliases [''x.org''] False) [] oneService =
      (None, oneService\<lparr>Ingresses :=
                 fmupd (''default'', ''kubernetes-router-a-ingress'') D
                   (fmupd (''default'', ''kubernetes-router-cname-x.org'') dx fmempty),
               requests := [CreateIngress ''default'' ''kubernetes-router-cname-x.org'',
                            CreateIngress ''default'' ''kubernetes-router-a-ingress'']\<rparr>)
    \<and> primaryIngress exampleService app1 (aliases [] False) ''default''
          \<lparr>target_Service = ''web'', target_Namespace = ''default''\<rparr> (plainService ''web'' 8888) []
        = Inr D"
proof -
  let ?t = "\<lparr>target_Service = ''web'', target_Namespace = ''default''\<rparr>"
  let ?svc = "plainService ''web'' 8888"
  let ?o = "\<lparr>opts_namespace = ''default'', opts_id = app1, opts_cname = ''x.org'',
             opts_service = ?svc, opts_routerOpts = routeOpts\<rparr>"
  have c: "pending oneService = []" "Apps oneService = fmempty"
    "Services oneService = [?svc]" "Ingresses oneService = fmempty" "requests oneService = []"
    by (simp_all add: oneService_def emptyCluster_def)
  from primaryIngress_total [OF Ports_plainService] obtain D where
    d: "primaryIngress exampleService app1 (aliases [''x.org''] False) ''default'' ?t ?svc [] = Inr D"
    by blast
  from primaryIngress_Inr(1) [OF d] have n: "Name (Meta D) = ''kubernetes-router-a-ingress''"
    by (simp add: exampleService_names)
  from cnameIngress_total [of ?o exampleService "[]"] obtain dx where
    dx: "cnameIngress exampleService ?o [] = Inr dx"
    by (auto simp: Ports_plainService)
  from cnameIngress_Inr(1) [OF dx] have nx: "Name (Meta dx) = ''kubernetes-router-cname-x.org''"
    by (simp add: exampleService_names)
  have w: "getWebService exampleService (Services oneService) (AppName app1) ?t = Inr ?svc"
    by (simp add: c exampleService_helpers)
  let ?c3 = "oneService\<lparr>Ingresses := fmupd (''default'', ''kubernetes-router-cname-x.org'') dx fmempty,
                         requests := [CreateIngress ''default'' ''kubernetes-router-cname-x.org'']\<rparr>"
  have s1: "ensureCNames exampleService ''default'' app1 ?svc routeOpts [''x.org''] [] oneService
              = (None, ?c3)"
    using ensureCNameBackend_create [OF c(1) dx] c by (simp add: nx)
  have s3: "createOrUpdate ''default'' None D ?c3 =
      (None, oneService\<lparr>Ingresses :=
                 fmupd (''default'', ''kubernetes-router-a-ingress'') D
                   (fmupd (''default'', ''kubernetes-router-cname-x.org'') dx fmempty),
               requests := [CreateIngress ''default'' ''kubernetes-router-cname-x.org'',
                            CreateIngress ''default'' ''kubernetes-router-a-ingress'']\<rparr>)"
    using createOrUpdate_create [of ?c3 "''default''" D] c by (simp add: n)
  have "Ensure exampleService app1 (aliases [''x.org''] False) [] oneService =
      (None, oneService\<lparr>Ingresses :=
                 fmupd (''default'', ''kubernetes-router-a-ingress'') D
                   (fmupd (''default'', ''kubernetes-router-cname-x.org'') dx fmempty),
               requests := [CreateIngress ''default'' ''kubernetes-router-cname-x.org'',
                            CreateIngress ''default'' ''kubernetes-router-a-ingress'']\<rparr>)"
    by (subst Ensure_served [OF c(1) exampleService_namespace [OF c(1,2)]
          exampleService_helpers(1) w d])
       (simp add: aliases_def s1 s3 c exampleService_names cnamesToRemove_def existingCNames_def
          diffCNames_def del: ensureCNames.simps(2) removeCNames.simps(2))
  moreover from d primaryIngress_few [of "[''x.org'']" "[]" exampleService app1 False
       "''default''" ?t ?svc "[]" False]
  have "primaryIngress exampleService app1 (aliases [] False) ''default'' ?t ?svc [] = Inr D"
    by simp
  ultimately show ?thesis by blast
qed

text \<open>
  Claim C3: what the code does instead. \<open>primaryIngress\<close> records the aliases only when
  there is more than one (\<^verbatim>\<open>len(o.CNames) > 1\<close>, line 376). After an \<open>Ensure\<close>
  with the single alias \<open>x.org\<close> the primary object carries no record of it, and a second
  \<open>Ensure\<close> with no alias leaves the sibling of \<open>x.org\<close> in the store, whatever the
  orders \<open>ords\<close> and \<open>ords'\<close> of the ranges of the two calls.
\<close>

theorem Ensure_singleton_alias_left:
  "fst (Ensure exampleService app1 (aliases [''x.org''] False) ords oneService) = None
   \<and> fst (Ensure exampleService app1 (aliases [] False) ords'
            (snd (Ensure exampleService app1 (aliases [''x.org''] False) ords oneService))) = None
   \<and> fmlookup (Ingresses (snd (Ensure exampleService app1 (aliases [] False) ords'
            (snd (Ensure exampleService app1 (aliases [''x.org''] False) ords oneService)))))
        (''default'', ingressCName exampleService app1 ''x.org'') \<noteq> None"
proof -
  let ?t = "\<lparr>target_Service = ''web'', target_Namespace = ''default''\<rparr>"
  let ?svc = "plainService ''web'' 8888"
  have o1: "Ensure exampleService app1 (aliases [''x.org''] False) ords oneService
          = Ensure exampleService app1 (aliases [''x.org''] False) [] oneService"
    by (rule Ensure_order [OF aliases_apart])
  have o2: "Ensure exampleService app1 (aliases [] False) ords' x
          = Ensure exampleService app1 (aliases [] False) [] x" for x
    by (rule Ensure_order [OF aliases_apart])
  from Ensure_one_alias obtain dx D where
    1: "Ensure exampleService app1 (aliases [''x.org''] False) [] oneService =
      (None, oneService\<lparr>Ingresses :=
                 fmupd (''default'', ''kubernetes-router-a-ingress'') D
                   (fmupd (''default'', ''kubernetes-router-cname-x.org'') dx fmempty),
               requests := [CreateIngress ''default'' ''kubernetes-router-cname-x.org'',
                            CreateIngress ''default'' ''kubernetes-router-a-ingress'']\<rparr>)"
    and d: "primaryIngress exampleService app1 (aliases [] False) ''default'' ?t ?svc [] = Inr D"
    by blast
  let ?c1 = "oneService\<lparr>Ingresses :=
                 fmupd (''default'', ''kubernetes-router-a-ingress'') D
                   (fmupd (''default'', ''kubernetes-router-cname-x.org'') dx fmempty),
               requests := [CreateIngress ''default'' ''kubernetes-router-cname-x.org'',
                            CreateIngress ''default'' ''kubernetes-router-a-ingress'']\<rparr>"
  have c1: "pending ?c1 = []" "Apps ?c1 = fmempty" "Services ?c1 = [?svc]"
    by (simp_all add: oneService_def emptyCluster_def)
  have w: "getWebService exampleService (Services ?c1) (AppName app1) ?t = Inr ?svc"
    by (simp add: c1 exampleService_helpers)
  have a: "index (Annotations (Meta D)) AnnotationsCNames = []"
    using primaryIngress_example_annotation [OF d] by simp
  from primaryIngress_Inr(1) [OF d] have n: "Name (Meta D) = ''kubernetes-router-a-ingress''"
    by (simp add: exampleService_names)
  have u: "upToDate ?c1 ''default'' D"
    by (simp add: upToDate_def n ingressHasChanges_refl)
  let ?c4 = "?c1\<lparr>requests := requests ?c1 @ [DeleteIngress ''default'' ''kubernetes-router-cname-'']\<rparr>"
  have s2: "removeCNames exampleService ''default'' app1 ?svc routeOpts [[]] ?c1 = (None, ?c4)"
    by (simp add: removeCNameBackend_def Ingresses_Delete_def serve_def logged_def
          exampleService_names oneService_def emptyCluster_def)
  have s3: "createOrUpdate ''default'' (Some D) D c4 = (None, c4)" for c4
    by (simp add: createOrUpdate_def ingressHasChanges_refl)
  have 2: "Ensure exampleService app1 (aliases [] False) [] ?c1 = (None, ?c4)"
    by (subst Ensure_served [OF c1(1) exampleService_namespace [OF c1(1,2)]
          exampleService_helpers(1) w d])
       (simp add: aliases_def exampleService_names a cnamesToRemove_def existingCNames_def
          diffCNames_def s2 s3 del: ensureCNames.simps(2) removeCNames.simps(2))
  show ?thesis
    unfolding o1 o2 1 by (simp add: 2 exampleService_names)
qed




end
